theory Spec2Isabelle
  imports Main "HOL-Library.Word" "HOL-Library.Multiset" "HOL-Library.Code_Target_Nat"
begin

unbundle bit_operations_syntax

section \<open>Variable states of the CPU plugin (memory_state.cpp)\<close>

text \<open>
  A shallow embedding of \<^verbatim>\<open>src/plugins/intel_cpu/src/memory_state.cpp\<close>: the state
  protocol \<^verbatim>\<open>VariableStateBase\<close> and its three variants
  \<^verbatim>\<open>VariableStateDoubleBuffer\<close>, \<^verbatim>\<open>VariableStateSingleBuffer\<close> and
  \<^verbatim>\<open>VariableStateKVcache\<close>.

  Memory is modelled as a flat list of elements with a blocked descriptor (dims, order,
  strides); a \<^verbatim>\<open>PlainTensor\<close> is a strided view on such a list. Every
  \<^verbatim>\<open>OPENVINO_ASSERT\<close>, exception and out-of-range access of the source is an
  \<open>Inl\<close> result of the model. Element values have an abstract type \<open>'a\<close>; what the
  numeric kernels compute is a parameter of the model (record \<open>kernels\<close>).
\<close>

subsection \<open>Errors\<close>

datatype error =
    ConstructionError    \<comment> \<open>OPENVINO_ASSERT in a constructor\<close>
  | AssertionFailed      \<comment> \<open>OPENVINO_ASSERT on ranks, orders and strides\<close>
  | ParameterMismatch    \<comment> \<open>descriptor cloned with dims it does not admit\<close>
  | UndefinedDims        \<comment> \<open>getStaticDims on a dynamic shape, load on undefined descriptors\<close>
  | OutOfBounds          \<comment> \<open>an access outside the allocated block\<close>
  | DivisionByZero       \<comment> \<open>integer division by a zero group size\<close>
  | NullPointer          \<comment> \<open>a null memory pointer is dereferenced\<close>

subsection \<open>Descriptors and memory\<close>

text \<open>
  Modelled from the spec: the descriptor and tensor types (cpu_shape.h, the memory_desc
  headers, cpu_memory.h) are not under src. A descriptor is an element precision, a shape
  whose dimensions are concrete extents or undefined, and a dimension order; a buffer is a
  block of memory plus a descriptor. \<^verbatim>\<open>Shape::UNDEFINED_DIM\<close> is the largest
  \<^verbatim>\<open>size_t\<close>.
\<close>

datatype element_Type = element_f32 | element_f16 | element_bf16 | element_u8 | element_i32

definition UNDEFINED_DIM :: nat where
  "UNDEFINED_DIM = 2 ^ 64 - 1"

record BlockedMemoryDesc =
  getPrecision :: element_Type
  getDims :: "nat list"
  getOrder :: "nat list"
  getStrides :: "nat list"

definition isDynamic :: "BlockedMemoryDesc \<Rightarrow> bool" where
  "isDynamic desc = (UNDEFINED_DIM \<in> set (getDims desc))"

definition isStatic :: "BlockedMemoryDesc \<Rightarrow> bool" where
  "isStatic desc = (\<not> isDynamic desc)"

definition isDefined :: "BlockedMemoryDesc \<Rightarrow> bool" where
  "isDefined desc = (UNDEFINED_DIM \<notin> set (getDims desc))"

definition getStaticDims :: "BlockedMemoryDesc \<Rightarrow> error + nat list" where
  "getStaticDims desc = (if isStatic desc then Inr (getDims desc) else Inl UndefinedDims)"

text \<open>Dense strides of blocked dims: the innermost has stride 1.\<close>

fun dense_strides :: "nat list \<Rightarrow> nat list" where
  "dense_strides [] = []"
| "dense_strides (d # ds) = prod_list ds # dense_strides ds"

definition blockedDims :: "nat list \<Rightarrow> nat list \<Rightarrow> nat list" where
  "blockedDims ds ord = map (\<lambda>i. ds ! i) ord"

definition shape_isCompatible :: "nat list \<Rightarrow> nat list \<Rightarrow> bool" where
  "shape_isCompatible ds new_dims =
     (length ds = length new_dims \<and> list_all2 (\<lambda>d n. d = UNDEFINED_DIM \<or> d = n) ds new_dims)"

definition cloneWithNewDims :: "BlockedMemoryDesc \<Rightarrow> nat list \<Rightarrow> bool \<Rightarrow> error + BlockedMemoryDesc" where
  "cloneWithNewDims desc new_dims relaxedCheck =
     (if (if relaxedCheck then length (getDims desc) \<noteq> length new_dims
          else \<not> shape_isCompatible (getDims desc) new_dims)
      then Inl ParameterMismatch
      else if UNDEFINED_DIM \<in> set new_dims then Inl ParameterMismatch
      else Inr (desc\<lparr>getDims := new_dims,
                     getStrides := dense_strides (blockedDims new_dims (getOrder desc))\<rparr>))"

definition cloneWithNewPrecision :: "BlockedMemoryDesc \<Rightarrow> element_Type \<Rightarrow> BlockedMemoryDesc" where
  "cloneWithNewPrecision desc prc = desc\<lparr>getPrecision := prc\<rparr>"

definition isCompatible :: "BlockedMemoryDesc \<Rightarrow> BlockedMemoryDesc \<Rightarrow> bool" where
  "isCompatible a b =
     (getPrecision a = getPrecision b \<and> getDims a = getDims b \<and> getOrder a = getOrder b
      \<and> getStrides a = getStrides b)"

record 'a Memory =
  getDesc :: BlockedMemoryDesc
  getData :: "'a list"

subsection \<open>External kernels\<close>

text \<open>
  Modelled from the spec: \<^verbatim>\<open>cpu_convert\<close> (cpu_convert.h), \<^verbatim>\<open>Memory::load\<close>
  (cpu_memory.h) and the affine quantisation kernels (attn_quant.hpp) are not under src.
  What they compute on one element, or on one group of elements, is a parameter:
  \<^item> \<open>uninit\<close>: the content of freshly allocated memory that was never written;
  \<^item> \<open>uninit_i32\<close>: the same for a fresh block of 32-bit integers;
  \<^item> \<open>zero\<close>: the element \<^verbatim>\<open>nullify\<close> fills a buffer with;
  \<^item> \<open>convert_elem src_prc dst_prc\<close>: the precision conversion of \<^verbatim>\<open>cpu_convert\<close>;
  \<^item> \<open>load_elem src_prc dst_prc\<close>: the conversion \<^verbatim>\<open>Memory::load\<close> applies;
  \<^item> \<open>quant_params xs\<close>: the (scale, zero-point) pair of one group of values;
  \<^item> \<open>quant_elem scale zp x\<close>: the stored 8-bit value of \<open>x\<close>;
  \<^item> \<open>dequant_elem scale zp q\<close>: the value \<open>(q - zp) * scale\<close> of a stored \<open>q\<close>.
\<close>

record 'a kernels =
  uninit :: 'a
  uninit_i32 :: "32 word"
  zero :: 'a
  convert_elem :: "element_Type \<Rightarrow> element_Type \<Rightarrow> 'a \<Rightarrow> 'a"
  load_elem :: "element_Type \<Rightarrow> element_Type \<Rightarrow> 'a \<Rightarrow> 'a"
  quant_params :: "'a list \<Rightarrow> 'a \<times> 'a"
  quant_elem :: "'a \<Rightarrow> 'a \<Rightarrow> 'a \<Rightarrow> 'a"
  dequant_elem :: "'a \<Rightarrow> 'a \<Rightarrow> 'a \<Rightarrow> 'a"

text \<open>\<^verbatim>\<open>std::make_shared<Memory>(engine, desc)\<close>: a fresh block for the descriptor.\<close>

definition Memory_new :: "'e \<Rightarrow> BlockedMemoryDesc \<Rightarrow> 'e Memory" where
  "Memory_new fresh desc =
     \<lparr>getDesc = desc,
      getData = replicate (if isDefined desc then prod_list (getDims desc) else 0) fresh\<rparr>"

text \<open>\<^verbatim>\<open>CpuBlockedMemoryDesc(prc, Shape{dims})\<close>: the plain dense layout.\<close>

definition CpuBlockedMemoryDesc :: "element_Type \<Rightarrow> nat list \<Rightarrow> BlockedMemoryDesc" where
  "CpuBlockedMemoryDesc prc ds =
     \<lparr>getPrecision = prc, getDims = ds, getOrder = [0..<length ds], getStrides = dense_strides ds\<rparr>"

text \<open>
  Writing \<open>vals\<close> into a block at offset \<open>off\<close>; an access past the end of the block is
  undefined behaviour in the source and \<open>OutOfBounds\<close> here.
\<close>

definition write_block :: "'a list \<Rightarrow> nat \<Rightarrow> 'a list \<Rightarrow> error + 'a list" where
  "write_block dst off vals =
     (if off + length vals \<le> length dst
      then Inr (take off dst @ vals @ drop (off + length vals) dst)
      else Inl OutOfBounds)"

definition read_block :: "'a list \<Rightarrow> nat \<Rightarrow> nat \<Rightarrow> error + 'a list" where
  "read_block src off n =
     (if off + n \<le> length src then Inr (take n (drop off src)) else Inl OutOfBounds)"

text \<open>\<^verbatim>\<open>cpu_convert(srcPtr, dstPtr, srcPrc, dstPrc, size)\<close> on two blocks.\<close>

definition cpu_convert ::
  "'a kernels \<Rightarrow> 'a list \<Rightarrow> nat \<Rightarrow> 'a list \<Rightarrow> nat \<Rightarrow> element_Type \<Rightarrow> element_Type \<Rightarrow> nat
   \<Rightarrow> error + 'a list" where
  "cpu_convert k src src_off dst dst_off srcPrc dstPrc n =
     (case read_block src src_off n of
        Inl e \<Rightarrow> Inl e
      | Inr xs \<Rightarrow> write_block dst dst_off (map (convert_elem k srcPrc dstPrc) xs))"

subsection \<open>PlainTensor\<close>

text \<open>
  Modelled from the spec: \<^verbatim>\<open>PlainTensor\<close> (utils/plain_tensor.hpp) is not under src.
  It is a view with dims and element strides on a block; \<open>m_ptr\<close> is the block it points
  into. \<^verbatim>\<open>reset(mem)\<close> takes the dims of the memory and its strides per logical
  dimension, \<^verbatim>\<open>permute(order)\<close> reorders dims and strides,
  \<^verbatim>\<open>ptr_v(i0, i1, ...)\<close> is the offset \<open>\<Sum> i\<^sub>k * stride\<^sub>k\<close>, and
  \<^verbatim>\<open>resize(dims)\<close> makes the tensor dense, allocating when its capacity is too small.
\<close>

record 'a PlainTensor =
  m_dims :: "nat list"
  m_strides :: "nat list"
  m_dt :: element_Type
  m_ptr :: "'a list"

definition logical_strides :: "nat list \<Rightarrow> nat list \<Rightarrow> nat list" where
  "logical_strides orders strides =
     fold (\<lambda>i st. st[orders ! i := strides ! i]) [0..<length orders] (replicate (length strides) 0)"

definition PlainTensor_reset :: "'a Memory \<Rightarrow> error + 'a PlainTensor" where
  "PlainTensor_reset mem =
     (case getStaticDims (getDesc mem) of
        Inl e \<Rightarrow> Inl e
      | Inr ds \<Rightarrow>
          if length (getOrder (getDesc mem)) \<noteq> length ds
             \<or> length (getStrides (getDesc mem)) \<noteq> length ds then Inl AssertionFailed
          else Inr \<lparr>m_dims = ds,
                    m_strides = logical_strides (getOrder (getDesc mem)) (getStrides (getDesc mem)),
                    m_dt = getPrecision (getDesc mem),
                    m_ptr = getData mem\<rparr>)"

definition permute :: "'a PlainTensor \<Rightarrow> nat list \<Rightarrow> error + 'a PlainTensor" where
  "permute t ord =
     (if length ord \<noteq> length (m_dims t) \<or> length (m_strides t) \<noteq> length (m_dims t)
         \<or> list_ex (\<lambda>j. length (m_dims t) \<le> j) ord
      then Inl OutOfBounds
      else Inr (t\<lparr>m_dims := map (\<lambda>j. m_dims t ! j) ord,
                   m_strides := map (\<lambda>j. m_strides t ! j) ord\<rparr>))"

definition ptr_off :: "'a PlainTensor \<Rightarrow> nat list \<Rightarrow> nat" where
  "ptr_off t idx = sum_list (map2 (*) idx (m_strides t))"

definition PlainTensor_resize :: "'a kernels \<Rightarrow> 'a PlainTensor \<Rightarrow> nat list \<Rightarrow> element_Type \<Rightarrow> 'a PlainTensor" where
  "PlainTensor_resize k t new_dims dt =
     \<lparr>m_dims = new_dims, m_strides = dense_strides new_dims, m_dt = dt,
      m_ptr = (if length (m_ptr t) < prod_list new_dims
               then replicate (prod_list new_dims) (uninit k) else m_ptr t)\<rparr>"

definition PlainTensor_empty :: "'a PlainTensor" where
  "PlainTensor_empty = \<lparr>m_dims = [], m_strides = [], m_dt = element_f32, m_ptr = []\<rparr>"

subsection \<open>Loops\<close>

text \<open>
  \<^verbatim>\<open>parallel_for3d(D0, D1, D2, func)\<close> calls \<open>func\<close> once for every triple; the
  iterations write disjoint slots, so the model runs them in sequential order on one
  thread (\<^verbatim>\<open>ithr = 0\<close>). The first failing iteration fails the loop.
\<close>

primrec forM :: "'i list \<Rightarrow> ('i \<Rightarrow> 's \<Rightarrow> error + 's) \<Rightarrow> 's \<Rightarrow> error + 's" where
  "forM [] func s = Inr s"
| "forM (i # rest) func s = (case func i s of Inl e \<Rightarrow> Inl e | Inr s' \<Rightarrow> forM rest func s')"

definition triples :: "nat \<Rightarrow> nat \<Rightarrow> nat \<Rightarrow> (nat \<times> nat \<times> nat) list" where
  "triples D0 D1 D2 = List.product [0..<D0] (List.product [0..<D1] [0..<D2])"

definition parallel_for3d ::
  "nat \<Rightarrow> nat \<Rightarrow> nat \<Rightarrow> (nat \<Rightarrow> nat \<Rightarrow> nat \<Rightarrow> 's \<Rightarrow> error + 's) \<Rightarrow> 's \<Rightarrow> error + 's" where
  "parallel_for3d D0 D1 D2 func s = forM (triples D0 D1 D2) (\<lambda>(d0, d1, d2). func d0 d1 d2) s"

subsection \<open>The state protocol\<close>

text \<open>
  \<^verbatim>\<open>VariableStateBase\<close>: the name, the external descriptor and the reset flag
  (memory_state.h initialises the flag to true). The virtual \<^verbatim>\<open>reset_impl\<close> and
  \<^verbatim>\<open>commit_impl\<close> of a variant are arguments of \<open>reset\<close> and \<open>commit\<close>.
\<close>

record VariableStateBase =
  m_name :: string
  m_external_desc :: BlockedMemoryDesc
  reset_state_flag :: bool

definition to_static :: "BlockedMemoryDesc \<Rightarrow> error + BlockedMemoryDesc" where
  "to_static desc =
     (if \<not> isDefined desc
      then cloneWithNewDims desc (map (\<lambda>x. if x = UNDEFINED_DIM then 0 else x) (getDims desc)) True
      else Inr desc)"

definition reset :: "('s VariableStateBase_scheme \<Rightarrow> 's VariableStateBase_scheme)
    \<Rightarrow> 's VariableStateBase_scheme \<Rightarrow> 's VariableStateBase_scheme" where
  "reset reset_impl s = (reset_impl s)\<lparr>reset_state_flag := True\<rparr>"

definition is_reset_state :: "'s VariableStateBase_scheme \<Rightarrow> bool" where
  "is_reset_state s = reset_state_flag s"

definition commit :: "('s VariableStateBase_scheme \<Rightarrow> 's VariableStateBase_scheme)
    \<Rightarrow> 's VariableStateBase_scheme \<Rightarrow> 's VariableStateBase_scheme" where
  "commit commit_impl s = (commit_impl s)\<lparr>reset_state_flag := False\<rparr>"

definition set_state :: "('t \<Rightarrow> 's VariableStateBase_scheme \<Rightarrow> error + 's VariableStateBase_scheme)
    \<Rightarrow> 't \<Rightarrow> 's VariableStateBase_scheme \<Rightarrow> error + 's VariableStateBase_scheme" where
  "set_state set_state_impl state s =
     (case set_state_impl state s of
        Inl e \<Rightarrow> Inl e
      | Inr s' \<Rightarrow> Inr (s'\<lparr>reset_state_flag := False\<rparr>))"

subsection \<open>VariableStateKVcache\<close>

record 'a VariableStateKVcache = VariableStateBase +
  m_internal_mem :: "'a Memory option"
  m_hidden_state :: "32 word Memory option"
  m_dense_internal_desc :: BlockedMemoryDesc
  m_quant_by_channel :: bool
  m_group_size :: nat
  m_scale_zp :: "'a PlainTensor"
  m_state :: "'a Memory option"
  m_internal_mem_max_size :: nat
  m_hidden_state_max_size :: nat

definition VariableStateKVcache_new ::
  "string \<Rightarrow> BlockedMemoryDesc \<Rightarrow> BlockedMemoryDesc \<Rightarrow> bool \<Rightarrow> nat \<Rightarrow> error + 'a VariableStateKVcache" where
  "VariableStateKVcache_new name external_desc dense_internal_desc quant_by_channel group_size =
     (if isDynamic external_desc
      then Inr \<lparr>m_name = name, m_external_desc = external_desc, reset_state_flag = True,
                m_internal_mem = None, m_hidden_state = None,
                m_dense_internal_desc = dense_internal_desc,
                m_quant_by_channel = quant_by_channel, m_group_size = group_size,
                m_scale_zp = PlainTensor_empty, m_state = None,
                m_internal_mem_max_size = 0, m_hidden_state_max_size = 0\<rparr>
      else Inl ConstructionError)"

definition reset_impl_KVcache :: "'a VariableStateKVcache \<Rightarrow> 'a VariableStateKVcache" where
  "reset_impl_KVcache s = s"

definition commit_impl_KVcache :: "'a VariableStateKVcache \<Rightarrow> 'a VariableStateKVcache" where
  "commit_impl_KVcache s = s"

definition assign_internal_state :: "'a Memory option \<Rightarrow> 'a VariableStateKVcache \<Rightarrow> 'a VariableStateKVcache" where
  "assign_internal_state mem s = s\<lparr>m_internal_mem := mem\<rparr>"

definition assign_hidden_state :: "32 word Memory option \<Rightarrow> 'a VariableStateKVcache \<Rightarrow> 'a VariableStateKVcache" where
  "assign_hidden_state mem s = s\<lparr>m_hidden_state := mem\<rparr>"

text \<open>\<^verbatim>\<open>static_cast<size_t>(beam_table.at<int32_t>({b, m}))\<close>: sign extension to 64 bits.\<close>

definition size_t_of_int32 :: "32 word \<Rightarrow> nat" where
  "size_t_of_int32 w = unat (scast w :: 64 word)"

definition beam_table_at :: "32 word PlainTensor \<Rightarrow> nat \<Rightarrow> nat \<Rightarrow> error + nat" where
  "beam_table_at beam_table b m =
     (if ptr_off beam_table [b, m] < length (m_ptr beam_table)
      then Inr (size_t_of_int32 (m_ptr beam_table ! ptr_off beam_table [b, m]))
      else Inl OutOfBounds)"

text \<open>
  \<^verbatim>\<open>attn_dequant_u8(src, dst, n, params)\<close>: \<open>n\<close> stored values become floats with the
  scale at \<open>params[0]\<close> and the zero-point at \<open>params[1]\<close>.
\<close>

definition attn_dequant_u8 ::
  "'a kernels \<Rightarrow> 'a list \<Rightarrow> nat \<Rightarrow> 'a list \<Rightarrow> nat \<Rightarrow> nat \<Rightarrow> 'a list \<Rightarrow> nat \<Rightarrow> error + 'a list" where
  "attn_dequant_u8 k src src_off dst dst_off n params params_off =
     (case read_block src src_off n of
        Inl e \<Rightarrow> Inl e
      | Inr qs \<Rightarrow>
          (case read_block params params_off 2 of
             Inl e \<Rightarrow> Inl e
           | Inr sz \<Rightarrow> write_block dst dst_off (map (dequant_elem k (sz ! 0) (sz ! 1)) qs)))"

text \<open>
  \<^verbatim>\<open>attn_dequant_by_channel_u8(src, dst, seq_dim, hidden_dims, src_stride, dst_stride,
  scale, zp)\<close>: lane \<open>j\<close> of every row uses \<open>scale[j]\<close> and \<open>zp[j]\<close>.
\<close>

definition attn_dequant_by_channel_u8 ::
  "'a kernels \<Rightarrow> 'a list \<Rightarrow> nat \<Rightarrow> 'a list \<Rightarrow> nat \<Rightarrow> nat \<Rightarrow> nat \<Rightarrow> nat \<Rightarrow> nat \<Rightarrow> 'a list \<Rightarrow> nat \<Rightarrow> nat
   \<Rightarrow> error + 'a list" where
  "attn_dequant_by_channel_u8 k src src_off dst dst_off seq_dim hidden_dims src_stride dst_stride
       params scale_off zp_off =
     (case read_block params scale_off hidden_dims of
        Inl e \<Rightarrow> Inl e
      | Inr scales \<Rightarrow>
          (case read_block params zp_off hidden_dims of
             Inl e \<Rightarrow> Inl e
           | Inr zps \<Rightarrow>
               forM [0..<seq_dim]
                 (\<lambda>i d. case read_block src (src_off + i * src_stride) hidden_dims of
                           Inl e \<Rightarrow> Inl e
                         | Inr qs \<Rightarrow>
                             write_block d (dst_off + i * dst_stride)
                               (map (\<lambda>(q, sc, z). dequant_elem k sc z q) (zip qs (zip scales zps))))
                 dst))"

text \<open>The three loops of \<^verbatim>\<open>get_state\<close>; the state of a loop is the output block, and the
  scratch buffer \<^verbatim>\<open>buffers[ithr]\<close> where the source has one.\<close>

definition get_state_plain ::
  "'a kernels \<Rightarrow> 'a PlainTensor \<Rightarrow> 32 word PlainTensor \<Rightarrow> 'a PlainTensor \<Rightarrow> nat \<Rightarrow> nat \<Rightarrow> nat \<Rightarrow> nat
   \<Rightarrow> error + 'a list" where
  "get_state_plain k pastkv beam_table output L0 B H S =
     parallel_for3d L0 B H
       (\<lambda>m b h out.
          case beam_table_at beam_table b m of
            Inl e \<Rightarrow> Inl e
          | Inr b_kv \<Rightarrow>
              cpu_convert k (m_ptr pastkv) (ptr_off pastkv [m, b_kv, h]) out (ptr_off output [m, b, h])
                (m_dt pastkv) (m_dt output) S)
       (m_ptr output)"

definition get_state_by_channel ::
  "'a kernels \<Rightarrow> nat \<Rightarrow> 'a PlainTensor \<Rightarrow> 'a PlainTensor \<Rightarrow> 32 word PlainTensor \<Rightarrow> 'a PlainTensor
   \<Rightarrow> nat \<Rightarrow> nat \<Rightarrow> nat \<Rightarrow> nat \<Rightarrow> error + 'a list" where
  "get_state_by_channel k group_size scale_zp pastkv beam_table output L0 B H S =
     (case parallel_for3d L0 B H
        (\<lambda>m b h (out, buffer).
           case beam_table_at beam_table b m of
             Inl e \<Rightarrow> Inl e
           | Inr b_kv \<Rightarrow>
               if group_size = 0 then Inl DivisionByZero
               else
                 let group_id = m div group_size;
                     buffer1 = PlainTensor_resize k buffer [S] element_f32
                 in (case attn_dequant_by_channel_u8 k (m_ptr pastkv) (ptr_off pastkv [m, b_kv, h])
                            (m_ptr buffer1) 0 1 S (m_strides pastkv ! 2) S (m_ptr scale_zp)
                            (ptr_off scale_zp [group_id * 2, b_kv, h])
                            (ptr_off scale_zp [group_id * 2 + 1, b_kv, h]) of
                       Inl e \<Rightarrow> Inl e
                     | Inr floats \<Rightarrow>
                         (case cpu_convert k floats 0 out (ptr_off output [m, b, h])
                                 element_f32 (m_dt output) S of
                            Inl e \<Rightarrow> Inl e
                          | Inr out' \<Rightarrow> Inr (out', buffer1\<lparr>m_ptr := floats\<rparr>))))
        (m_ptr output, PlainTensor_empty) of
        Inl e \<Rightarrow> Inl e
      | Inr (out, buffer) \<Rightarrow> Inr out)"

definition get_state_by_group ::
  "'a kernels \<Rightarrow> nat \<Rightarrow> 'a PlainTensor \<Rightarrow> 'a PlainTensor \<Rightarrow> 32 word PlainTensor \<Rightarrow> 'a PlainTensor
   \<Rightarrow> nat \<Rightarrow> nat \<Rightarrow> nat \<Rightarrow> nat \<Rightarrow> error + 'a list" where
  "get_state_by_group k group_size scale_zp pastkv beam_table output L0 B H S =
     (case parallel_for3d L0 B H
        (\<lambda>m b h (out, buffer).
           case beam_table_at beam_table b m of
             Inl e \<Rightarrow> Inl e
           | Inr b_kv \<Rightarrow>
               let buffer1 = PlainTensor_resize k buffer [S] element_f32
               in if group_size = 0 then Inl DivisionByZero
                  else
                    (case forM [0..<S div group_size]
                            (\<lambda>group_id floats.
                               attn_dequant_u8 k (m_ptr pastkv)
                                 (ptr_off pastkv [m, b_kv, h, group_id * group_size])
                                 floats (group_id * group_size) group_size (m_ptr scale_zp)
                                 (ptr_off scale_zp [m, b_kv, h, group_id * 2]))
                            (m_ptr buffer1) of
                       Inl e \<Rightarrow> Inl e
                     | Inr floats \<Rightarrow>
                         (case cpu_convert k floats 0 out (ptr_off output [m, b, h])
                                 element_f32 (m_dt output) S of
                            Inl e \<Rightarrow> Inl e
                          | Inr out' \<Rightarrow> Inr (out', buffer1\<lparr>m_ptr := floats\<rparr>))))
        (m_ptr output, PlainTensor_empty) of
        Inl e \<Rightarrow> Inl e
      | Inr (out, buffer) \<Rightarrow> Inr out)"

text \<open>\<^verbatim>\<open>VariableStateKVcache::get_state\<close>, after its first test: the reordering copy.\<close>

definition get_state_reorder ::
  "'a kernels \<Rightarrow> 'a VariableStateKVcache \<Rightarrow> 'a Memory \<Rightarrow> 32 word Memory \<Rightarrow> error + 'a Memory" where
  "get_state_reorder k s internal_mem hidden_state =
     (let actual_internal_desc = getDesc internal_mem in
      case getStaticDims actual_internal_desc of
        Inl e \<Rightarrow> Inl e
      | Inr ds \<Rightarrow>
      (case cloneWithNewDims (m_external_desc s) ds False of
        Inl e \<Rightarrow> Inl e
      | Inr actual_external_desc \<Rightarrow>
      (let external_mem = Memory_new (uninit k) actual_external_desc in
       if length (getDims actual_internal_desc) \<noteq> 4 then Inl AssertionFailed
       else if length (getDims actual_external_desc) \<noteq> 4 then Inl AssertionFailed
       else
       (let actual_internal_order = getOrder actual_internal_desc in
        if actual_internal_order \<noteq> getOrder (m_dense_internal_desc s) then Inl AssertionFailed
        else
        (case PlainTensor_reset external_mem of
          Inl e \<Rightarrow> Inl e
        | Inr output0 \<Rightarrow>
        (case PlainTensor_reset hidden_state of
          Inl e \<Rightarrow> Inl e
        | Inr beam_table \<Rightarrow>
        (case PlainTensor_reset internal_mem of
          Inl e \<Rightarrow> Inl e
        | Inr pastkv0 \<Rightarrow>
        (case permute output0 actual_internal_order of
          Inl e \<Rightarrow> Inl e
        | Inr output \<Rightarrow>
        (case permute pastkv0 actual_internal_order of
          Inl e \<Rightarrow> Inl e
        | Inr pastkv \<Rightarrow>
          if \<not> (m_strides pastkv ! 3 = 1 \<and> m_strides output ! 3 = 1) then Inl AssertionFailed
          else
          (let L0 = m_dims pastkv ! 0; B = m_dims pastkv ! 1;
               H = m_dims pastkv ! 2; S = m_dims pastkv ! 3
           in case (if m_dt pastkv = element_u8
                    then (if m_quant_by_channel s
                          then get_state_by_channel k (m_group_size s) (m_scale_zp s)
                                 pastkv beam_table output L0 B H S
                          else get_state_by_group k (m_group_size s) (m_scale_zp s)
                                 pastkv beam_table output L0 B H S)
                    else get_state_plain k pastkv beam_table output L0 B H S) of
                Inl e \<Rightarrow> Inl e
              | Inr out \<Rightarrow> Inr (external_mem\<lparr>getData := out\<rparr>)))))))))))"

definition get_state_KVcache :: "'a kernels \<Rightarrow> 'a VariableStateKVcache \<Rightarrow> error + 'a Memory" where
  "get_state_KVcache k s =
     (if m_internal_mem s = None \<or> m_hidden_state s = None \<or> is_reset_state s
      then (case to_static (m_external_desc s) of
              Inl e \<Rightarrow> Inl e
            | Inr new_desc \<Rightarrow> Inr (Memory_new (uninit k) new_desc))
      else get_state_reorder k s (the (m_internal_mem s)) (the (m_hidden_state s)))"

text \<open>
  \<^verbatim>\<open>attn_quant_u8(src, dst, n, scale, zp)\<close>: one (scale, zero-point) pair for \<open>n\<close>
  values, stored at \<open>scale_off\<close> and \<open>zp_off\<close> of the table, and the \<open>n\<close> stored values.
\<close>

definition attn_quant_u8 ::
  "'a kernels \<Rightarrow> 'a list \<Rightarrow> nat \<Rightarrow> 'a list \<Rightarrow> nat \<Rightarrow> nat \<Rightarrow> 'a list \<Rightarrow> nat \<Rightarrow> nat
   \<Rightarrow> error + 'a list \<times> 'a list" where
  "attn_quant_u8 k src src_off dst dst_off n params scale_off zp_off =
     (case read_block src src_off n of
        Inl e \<Rightarrow> Inl e
      | Inr xs \<Rightarrow>
          (let sz = quant_params k xs in
           case write_block params scale_off [fst sz] of
             Inl e \<Rightarrow> Inl e
           | Inr params1 \<Rightarrow>
               (case write_block params1 zp_off [snd sz] of
                  Inl e \<Rightarrow> Inl e
                | Inr params2 \<Rightarrow>
                    (case write_block dst dst_off (map (quant_elem k (fst sz) (snd sz)) xs) of
                       Inl e \<Rightarrow> Inl e
                     | Inr dst' \<Rightarrow> Inr (dst', params2)))))"

text \<open>
  \<^verbatim>\<open>attn_quant_by_channel_u8(src, dst, seq_dim, hidden_dims, src_stride, dst_stride,
  scale, zp)\<close>: lane \<open>j\<close> gets one (scale, zero-point) pair from its \<open>seq_dim\<close> values.
\<close>

definition attn_quant_by_channel_u8 ::
  "'a kernels \<Rightarrow> 'a list \<Rightarrow> nat \<Rightarrow> 'a list \<Rightarrow> nat \<Rightarrow> nat \<Rightarrow> nat \<Rightarrow> nat \<Rightarrow> nat \<Rightarrow> 'a list \<Rightarrow> nat \<Rightarrow> nat
   \<Rightarrow> error + 'a list \<times> 'a list" where
  "attn_quant_by_channel_u8 k src src_off dst dst_off seq_dim hidden_dims src_stride dst_stride
       params scale_off zp_off =
     (case forM [0..<seq_dim]
             (\<lambda>i rows. case read_block src (src_off + i * src_stride) hidden_dims of
                          Inl e \<Rightarrow> Inl e
                        | Inr row \<Rightarrow> Inr (rows @ [row]))
             [] of
        Inl e \<Rightarrow> Inl e
      | Inr rows \<Rightarrow>
          (let sz = map (\<lambda>j. quant_params k (map (\<lambda>row. row ! j) rows)) [0..<hidden_dims] in
           case write_block params scale_off (map fst sz) of
             Inl e \<Rightarrow> Inl e
           | Inr params1 \<Rightarrow>
               (case write_block params1 zp_off (map snd sz) of
                  Inl e \<Rightarrow> Inl e
                | Inr params2 \<Rightarrow>
                    (case forM [0..<seq_dim]
                            (\<lambda>i d. write_block d (dst_off + i * dst_stride)
                                     (map (\<lambda>(x, sc, z). quant_elem k sc z x) (zip (rows ! i) sz)))
                            dst of
                       Inl e \<Rightarrow> Inl e
                     | Inr dst' \<Rightarrow> Inr (dst', params2)))))"

text \<open>\<^verbatim>\<open>div_up(a, b)\<close> of general_utils.h.\<close>

definition div_up :: "nat \<Rightarrow> nat \<Rightarrow> nat" where
  "div_up a b = (a + b - 1) div b"

text \<open>
  Modelled from the spec: \<^verbatim>\<open>Memory::load\<close> (cpu_memory.h) is not under src. It
  copies every element of the source to the same logical index of the destination,
  converting the precision (the reorder of the two layouts).
\<close>

primrec all_indices :: "nat list \<Rightarrow> nat list list" where
  "all_indices [] = [[]]"
| "all_indices (d # ds) = concat (map (\<lambda>i. map ((#) i) (all_indices ds)) [0..<d])"

definition Memory_load :: "'a kernels \<Rightarrow> 'a Memory \<Rightarrow> 'a Memory \<Rightarrow> error + 'a Memory" where
  "Memory_load k dst src =
     (if \<not> isDefined (getDesc src) \<or> \<not> isDefined (getDesc dst) then Inl UndefinedDims
      else if getDims (getDesc src) \<noteq> getDims (getDesc dst) then Inl ParameterMismatch
      else
        (case PlainTensor_reset src of
           Inl e \<Rightarrow> Inl e
         | Inr sv \<Rightarrow>
             (case PlainTensor_reset dst of
                Inl e \<Rightarrow> Inl e
              | Inr dv \<Rightarrow>
                  (case forM (all_indices (getDims (getDesc dst)))
                          (\<lambda>idx d.
                             if ptr_off sv idx < length (m_ptr sv) \<and> ptr_off dv idx < length d
                             then Inr (d[ptr_off dv idx :=
                                         load_elem k (m_dt sv) (m_dt dv) (m_ptr sv ! ptr_off sv idx)])
                             else Inl OutOfBounds)
                          (getData dst) of
                     Inl e \<Rightarrow> Inl e
                   | Inr d \<Rightarrow> Inr (dst\<lparr>getData := d\<rparr>)))))"

text \<open>The quantising loops of \<^verbatim>\<open>set_state_impl\<close>; the state of a loop is the internal
  block, the scale/zero-point block and the scratch buffer.\<close>

definition set_state_by_channel ::
  "'a kernels \<Rightarrow> nat \<Rightarrow> 'a PlainTensor \<Rightarrow> 'a PlainTensor \<Rightarrow> 'a PlainTensor \<Rightarrow> nat \<Rightarrow> nat \<Rightarrow> nat \<Rightarrow> nat
   \<Rightarrow> error + 'a list \<times> 'a PlainTensor" where
  "set_state_by_channel k group_size scale_zp0 external internal L0 B H S =
     (if group_size = 0 then Inl DivisionByZero
      else
        (let group_nums = div_up L0 group_size;
             scale_zp = PlainTensor_resize k scale_zp0 [group_nums * 2, B, H, S] element_f32
         in case parallel_for3d group_nums B H
                   (\<lambda>group_id b h (dst, params, buffer).
                      let valid_seq = min group_size (L0 - group_id * group_size);
                          buffer1 = PlainTensor_resize k buffer [valid_seq, S] element_f32
                      in (case cpu_convert k (m_ptr external) (ptr_off external [valid_seq, b, h])
                                 (m_ptr buffer1) 0 (m_dt external) element_f32 (valid_seq * S) of
                            Inl e \<Rightarrow> Inl e
                          | Inr floats \<Rightarrow>
                              (case attn_quant_by_channel_u8 k floats 0
                                      dst (ptr_off internal [group_id * group_size, b, h])
                                      valid_seq S S (m_strides internal ! 0) params
                                      (ptr_off scale_zp [group_id * 2, b, h])
                                      (ptr_off scale_zp [group_id * 2 + 1, b, h]) of
                                 Inl e \<Rightarrow> Inl e
                               | Inr (dst', params') \<Rightarrow>
                                   Inr (dst', params', buffer1\<lparr>m_ptr := floats\<rparr>))))
                   (m_ptr internal, m_ptr scale_zp, PlainTensor_empty) of
              Inl e \<Rightarrow> Inl e
            | Inr (dst, params, buffer) \<Rightarrow> Inr (dst, scale_zp\<lparr>m_ptr := params\<rparr>)))"

definition set_state_by_group ::
  "'a kernels \<Rightarrow> nat \<Rightarrow> 'a PlainTensor \<Rightarrow> 'a PlainTensor \<Rightarrow> 'a PlainTensor \<Rightarrow> nat \<Rightarrow> nat \<Rightarrow> nat \<Rightarrow> nat
   \<Rightarrow> error + 'a list \<times> 'a PlainTensor" where
  "set_state_by_group k group_size scale_zp0 external internal L0 B H S =
     (if group_size = 0 then Inl DivisionByZero
      else
        (let scale_zp = PlainTensor_resize k scale_zp0 [L0, B, H, 2 * S div group_size] element_f32
         in case parallel_for3d B H L0
                   (\<lambda>b h m (dst, params, buffer).
                      let buffer1 = PlainTensor_resize k buffer [S] element_f32
                      in (case cpu_convert k (m_ptr external) (ptr_off external [m, b, h])
                                 (m_ptr buffer1) 0 (m_dt external) element_f32 S of
                            Inl e \<Rightarrow> Inl e
                          | Inr floats \<Rightarrow>
                              (case forM [0..<S div group_size]
                                      (\<lambda>group_id (dst1, params1).
                                         attn_quant_u8 k floats (group_id * group_size)
                                           dst1 (ptr_off internal [m, b, h, group_id * group_size])
                                           group_size params1
                                           (ptr_off scale_zp [m, b, h, group_id * 2])
                                           (ptr_off scale_zp [m, b, h, group_id * 2 + 1]))
                                      (dst, params) of
                                 Inl e \<Rightarrow> Inl e
                               | Inr (dst', params') \<Rightarrow>
                                   Inr (dst', params', buffer1\<lparr>m_ptr := floats\<rparr>))))
                   (m_ptr internal, m_ptr scale_zp, PlainTensor_empty) of
              Inl e \<Rightarrow> Inl e
            | Inr (dst, params, buffer) \<Rightarrow> Inr (dst, scale_zp\<lparr>m_ptr := params\<rparr>)))"

text \<open>The quantisation branch of \<^verbatim>\<open>set_state_impl\<close> (storage precision u8).\<close>

definition set_state_quant ::
  "'a kernels \<Rightarrow> 'a VariableStateKVcache \<Rightarrow> 'a Memory \<Rightarrow> 'a Memory \<Rightarrow> error + 'a Memory \<times> 'a PlainTensor" where
  "set_state_quant k s state internal_mem =
     (let actual_internal_order = getOrder (m_dense_internal_desc s) in
      case getStaticDims (getDesc state) of
        Inl e \<Rightarrow> Inl e
      | Inr ds \<Rightarrow>
      (let external0 = \<lparr>m_dims = ds, m_strides = dense_strides ds,
                        m_dt = getPrecision (getDesc state), m_ptr = getData state\<rparr>
       in case PlainTensor_reset internal_mem of
         Inl e \<Rightarrow> Inl e
       | Inr internal0 \<Rightarrow>
       (case permute external0 actual_internal_order of
         Inl e \<Rightarrow> Inl e
       | Inr external \<Rightarrow>
       (case permute internal0 actual_internal_order of
         Inl e \<Rightarrow> Inl e
       | Inr internal \<Rightarrow>
         if length (m_dims internal) < 4 then Inl OutOfBounds
         else
         (let L0 = m_dims internal ! 0; B = m_dims internal ! 1;
              H = m_dims internal ! 2; S = m_dims internal ! 3
          in case (if m_quant_by_channel s
                   then set_state_by_channel k (m_group_size s) (m_scale_zp s) external internal L0 B H S
                   else set_state_by_group k (m_group_size s) (m_scale_zp s) external internal L0 B H S) of
               Inl e \<Rightarrow> Inl e
             | Inr (dst, scale_zp) \<Rightarrow> Inr (internal_mem\<lparr>getData := dst\<rparr>, scale_zp))))))"

text \<open>The beam table of \<^verbatim>\<open>set_state_impl\<close>: \<^verbatim>\<open>buff[i * size_L + j] = i\<close>.\<close>

definition beam_table_init :: "32 word list \<Rightarrow> nat \<Rightarrow> nat \<Rightarrow> 32 word list" where
  "beam_table_init buff size_B size_L =
     fold (\<lambda>i buff1. fold (\<lambda>j buff2. buff2[i * size_L + j := of_nat i]) [0..<size_L] buff1)
       [0..<size_B] buff"

definition set_state_impl_KVcache ::
  "'a kernels \<Rightarrow> 'a Memory \<Rightarrow> 'a VariableStateKVcache \<Rightarrow> error + 'a VariableStateKVcache" where
  "set_state_impl_KVcache k state s =
     (let state_desc = getDesc state in
      case getStaticDims state_desc of
        Inl e \<Rightarrow> Inl e
      | Inr ds \<Rightarrow>
      (case cloneWithNewDims (m_dense_internal_desc s) ds False of
        Inl e \<Rightarrow> Inl e
      | Inr dense_internal_desc \<Rightarrow>
      (let internal_mem0 = Memory_new (uninit k) dense_internal_desc in
       case (if getPrecision dense_internal_desc = element_u8
             then set_state_quant k s state internal_mem0
             else (case Memory_load k internal_mem0 state of
                     Inl e \<Rightarrow> Inl e
                   | Inr mem \<Rightarrow> Inr (mem, m_scale_zp s))) of
         Inl e \<Rightarrow> Inl e
       | Inr (internal_mem, scale_zp) \<Rightarrow>
         (let state_dims = getDims dense_internal_desc;
              ord = getOrder (m_dense_internal_desc s)
          in if length ord < 2 then Inl OutOfBounds
             else if length state_dims \<le> ord ! 1 \<or> length state_dims \<le> ord ! 0 then Inl OutOfBounds
             else
               (let size_B = state_dims ! (ord ! 1);
                    size_L = state_dims ! (ord ! 0);
                    mem_desc = CpuBlockedMemoryDesc element_i32 [size_B, size_L];
                    hidden_state0 = Memory_new (uninit_i32 k) mem_desc;
                    buff = beam_table_init (getData hidden_state0) size_B size_L
                in Inr (s\<lparr>m_state := Some state,
                          m_internal_mem := Some internal_mem,
                          m_scale_zp := scale_zp,
                          m_hidden_state := Some (hidden_state0\<lparr>getData := buff\<rparr>),
                          m_internal_mem_max_size := prod_list (getDims dense_internal_desc),
                          m_hidden_state_max_size := prod_list (getDims mem_desc)\<rparr>))))))"

subsection \<open>VariableStateDoubleBuffer and VariableStateSingleBuffer\<close>

text \<open>
  \<^verbatim>\<open>redefineDesc\<close> gives a buffer a new descriptor and the size it needs;
  \<^verbatim>\<open>nullify\<close> fills it with zeros.
\<close>

definition redefineDesc :: "'a kernels \<Rightarrow> BlockedMemoryDesc \<Rightarrow> 'a Memory \<Rightarrow> error + 'a Memory" where
  "redefineDesc k desc mem =
     (if \<not> isDefined desc then Inl UndefinedDims
      else Inr \<lparr>getDesc = desc,
                getData = take (prod_list (getDims desc)) (getData mem)
                          @ replicate (prod_list (getDims desc) - length (getData mem)) (uninit k)\<rparr>)"

definition nullify :: "'a kernels \<Rightarrow> 'a Memory \<Rightarrow> 'a Memory" where
  "nullify k mem = mem\<lparr>getData := replicate (length (getData mem)) (zero k)\<rparr>"

text \<open>
  \<^verbatim>\<open>VariableStateBase::set_state_impl\<close> and \<^verbatim>\<open>VariableStateBase::get_state\<close>.
  The virtual \<^verbatim>\<open>input_mem()\<close>, \<^verbatim>\<open>internal_desc()\<close> and
  \<^verbatim>\<open>internal_state_mem()\<close> are arguments; \<open>put_input_mem\<close> stores the memory object
  that \<^verbatim>\<open>input_mem()\<close> points to after it was changed in place.
\<close>

definition set_state_impl_Base ::
  "'a kernels \<Rightarrow> ('s VariableStateBase_scheme \<Rightarrow> 'a Memory option)
   \<Rightarrow> ('a Memory \<Rightarrow> 's VariableStateBase_scheme \<Rightarrow> 's VariableStateBase_scheme)
   \<Rightarrow> ('s VariableStateBase_scheme \<Rightarrow> BlockedMemoryDesc)
   \<Rightarrow> 'a Memory \<Rightarrow> 's VariableStateBase_scheme \<Rightarrow> error + 's VariableStateBase_scheme" where
  "set_state_impl_Base k input_mem put_input_mem internal_desc state s =
     (case input_mem s of
        None \<Rightarrow> Inl NullPointer
      | Some mem0 \<Rightarrow>
          (let state_desc = getDesc state in
           case (if getDims (getDesc mem0) \<noteq> getDims state_desc
                 then (case getStaticDims state_desc of
                         Inl e \<Rightarrow> Inl e
                       | Inr ds \<Rightarrow>
                           (case cloneWithNewDims (internal_desc s) ds False of
                              Inl e \<Rightarrow> Inl e
                            | Inr new_desc \<Rightarrow> redefineDesc k new_desc mem0))
                 else Inr mem0) of
             Inl e \<Rightarrow> Inl e
           | Inr mem1 \<Rightarrow>
               (case Memory_load k mem1 state of
                  Inl e \<Rightarrow> Inl e
                | Inr mem2 \<Rightarrow> Inr ((put_input_mem mem2 s)\<lparr>reset_state_flag := False\<rparr>))))"

definition get_state_Base ::
  "'a kernels \<Rightarrow> ('s VariableStateBase_scheme \<Rightarrow> 'a Memory option)
   \<Rightarrow> 's VariableStateBase_scheme \<Rightarrow> error + 'a Memory" where
  "get_state_Base k internal_state_mem s =
     (case internal_state_mem s of
        None \<Rightarrow> Inl NullPointer
      | Some mem0 \<Rightarrow>
          (case getStaticDims (getDesc mem0) of
             Inl e \<Rightarrow> Inl e
           | Inr current_dims \<Rightarrow>
               (case cloneWithNewDims (m_external_desc s) current_dims False of
                  Inl e \<Rightarrow> Inl e
                | Inr current_ext_desc \<Rightarrow>
                    (let current_internal_desc = getDesc mem0 in
                     if isCompatible current_ext_desc current_internal_desc then Inr mem0
                     else
                       (let internal_prc = getPrecision current_internal_desc;
                            tmp_desc = cloneWithNewPrecision current_ext_desc internal_prc
                        in if isCompatible tmp_desc current_internal_desc
                           then
                             (let mem = Memory_new (uninit k) current_ext_desc;
                                  elements_to_convert = prod_list (getDims current_internal_desc);
                                  external_prc = getPrecision current_ext_desc
                              in case cpu_convert k (getData mem0) 0 (getData mem) 0
                                        internal_prc external_prc elements_to_convert of
                                   Inl e \<Rightarrow> Inl e
                                 | Inr d \<Rightarrow> Inr (mem\<lparr>getData := d\<rparr>))
                           else Memory_load k (Memory_new (uninit k) current_ext_desc) mem0)))))"

record 'a VariableStateDoubleBuffer = VariableStateBase +
  m_internal_mem_db :: "'a Memory option list"
  m_internal_desc_db :: BlockedMemoryDesc
  buffer_num :: nat

definition prime_mem :: "'a VariableStateDoubleBuffer \<Rightarrow> 'a Memory option" where
  "prime_mem s = m_internal_mem_db s ! buffer_num s"

definition second_mem :: "'a VariableStateDoubleBuffer \<Rightarrow> 'a Memory option" where
  "second_mem s = m_internal_mem_db s ! (buffer_num s XOR 1)"

definition reset_prime_mem :: "'a Memory option \<Rightarrow> 'a VariableStateDoubleBuffer \<Rightarrow> 'a VariableStateDoubleBuffer" where
  "reset_prime_mem mem s = s\<lparr>m_internal_mem_db := (m_internal_mem_db s)[buffer_num s := mem]\<rparr>"

definition reset_second_mem :: "'a Memory option \<Rightarrow> 'a VariableStateDoubleBuffer \<Rightarrow> 'a VariableStateDoubleBuffer" where
  "reset_second_mem mem s = s\<lparr>m_internal_mem_db := (m_internal_mem_db s)[buffer_num s XOR 1 := mem]\<rparr>"

definition VariableStateDoubleBuffer_new ::
  "'a kernels \<Rightarrow> string \<Rightarrow> 'a Memory option \<Rightarrow> 'a Memory option \<Rightarrow> BlockedMemoryDesc
   \<Rightarrow> error + 'a VariableStateDoubleBuffer" where
  "VariableStateDoubleBuffer_new k name first_buffer second_buffer external_desc =
     (case (first_buffer, second_buffer) of
        (Some buf1, Some buf2) \<Rightarrow>
          (let s = \<lparr>m_name = name, m_external_desc = external_desc, reset_state_flag = True,
                    m_internal_mem_db = [Some buf1, Some buf2],
                    m_internal_desc_db = getDesc buf1, buffer_num = 0\<rparr>
           in if isStatic (m_internal_desc_db s)
              then Inr (reset_prime_mem (Some (nullify k buf1)) s)
              else (case to_static (m_internal_desc_db s) of
                      Inl e \<Rightarrow> Inl e
                    | Inr new_desc \<Rightarrow>
                        (case redefineDesc k new_desc buf1 of
                           Inl e \<Rightarrow> Inl e
                         | Inr mem \<Rightarrow> Inr (reset_prime_mem (Some mem) s))))
      | _ \<Rightarrow> Inl ConstructionError)"

definition reset_impl_DoubleBuffer ::
  "'a kernels \<Rightarrow> 'a VariableStateDoubleBuffer \<Rightarrow> 'a VariableStateDoubleBuffer" where
  "reset_impl_DoubleBuffer k s =
     (case to_static (m_internal_desc_db s) of
        Inl e \<Rightarrow> s
      | Inr new_desc \<Rightarrow>
          s\<lparr>m_internal_mem_db :=
              map (\<lambda>mem. case mem of
                           None \<Rightarrow> None
                         | Some m \<Rightarrow> (case redefineDesc k new_desc m of
                                        Inl e \<Rightarrow> Some m
                                      | Inr m' \<Rightarrow> Some (nullify k m')))
                  (m_internal_mem_db s)\<rparr>)"

definition commit_impl_DoubleBuffer :: "'a VariableStateDoubleBuffer \<Rightarrow> 'a VariableStateDoubleBuffer" where
  "commit_impl_DoubleBuffer s = s\<lparr>buffer_num := buffer_num s XOR 1\<rparr>"

definition set_state_DoubleBuffer ::
  "'a kernels \<Rightarrow> 'a Memory \<Rightarrow> 'a VariableStateDoubleBuffer \<Rightarrow> error + 'a VariableStateDoubleBuffer" where
  "set_state_DoubleBuffer k =
     set_state (set_state_impl_Base k prime_mem (\<lambda>mem. reset_prime_mem (Some mem)) m_internal_desc_db)"

definition get_state_DoubleBuffer :: "'a kernels \<Rightarrow> 'a VariableStateDoubleBuffer \<Rightarrow> error + 'a Memory" where
  "get_state_DoubleBuffer k = get_state_Base k prime_mem"

record 'a VariableStateSingleBuffer = VariableStateBase +
  m_internal_mem_sb :: "'a Memory option"
  m_internal_desc_sb :: BlockedMemoryDesc

definition VariableStateSingleBuffer_new ::
  "'a kernels \<Rightarrow> string \<Rightarrow> 'a Memory option \<Rightarrow> BlockedMemoryDesc
   \<Rightarrow> error + 'a VariableStateSingleBuffer" where
  "VariableStateSingleBuffer_new k name external_buffer external_desc =
     (case external_buffer of
        None \<Rightarrow> Inl NullPointer
      | Some buf \<Rightarrow>
          (let s = \<lparr>m_name = name, m_external_desc = external_desc, reset_state_flag = True,
                    m_internal_mem_sb = Some buf, m_internal_desc_sb = getDesc buf\<rparr>
           in if isStatic (m_internal_desc_sb s)
              then Inr (s\<lparr>m_internal_mem_sb := Some (nullify k buf)\<rparr>)
              else (case to_static (m_internal_desc_sb s) of
                      Inl e \<Rightarrow> Inl e
                    | Inr new_desc \<Rightarrow>
                        (case redefineDesc k new_desc buf of
                           Inl e \<Rightarrow> Inl e
                         | Inr mem \<Rightarrow> Inr (s\<lparr>m_internal_mem_sb := Some mem\<rparr>)))))"

definition reset_impl_SingleBuffer ::
  "'a kernels \<Rightarrow> 'a VariableStateSingleBuffer \<Rightarrow> 'a VariableStateSingleBuffer" where
  "reset_impl_SingleBuffer k s =
     (case to_static (m_internal_desc_sb s) of
        Inl e \<Rightarrow> s
      | Inr new_desc \<Rightarrow>
          (case m_internal_mem_sb s of
             None \<Rightarrow> s
           | Some m \<Rightarrow> (case redefineDesc k new_desc m of
                          Inl e \<Rightarrow> s
                        | Inr m' \<Rightarrow> s\<lparr>m_internal_mem_sb := Some (nullify k m')\<rparr>)))"

definition commit_impl_SingleBuffer :: "'a VariableStateSingleBuffer \<Rightarrow> 'a VariableStateSingleBuffer" where
  "commit_impl_SingleBuffer s = s"

definition set_state_SingleBuffer ::
  "'a kernels \<Rightarrow> 'a Memory \<Rightarrow> 'a VariableStateSingleBuffer \<Rightarrow> error + 'a VariableStateSingleBuffer" where
  "set_state_SingleBuffer k =
     set_state (set_state_impl_Base k m_internal_mem_sb (\<lambda>mem s. s\<lparr>m_internal_mem_sb := Some mem\<rparr>)
                  m_internal_desc_sb)"

definition get_state_SingleBuffer :: "'a kernels \<Rightarrow> 'a VariableStateSingleBuffer \<Rightarrow> error + 'a Memory" where
  "get_state_SingleBuffer k = get_state_Base k m_internal_mem_sb"

subsection \<open>The three variants behind one interface\<close>

datatype 'a VariableState =
    DoubleBuffer "'a VariableStateDoubleBuffer"
  | SingleBuffer "'a VariableStateSingleBuffer"
  | KVcache "'a VariableStateKVcache"

fun VariableState_commit :: "'a VariableState \<Rightarrow> 'a VariableState" where
  "VariableState_commit (DoubleBuffer s) = DoubleBuffer (commit commit_impl_DoubleBuffer s)"
| "VariableState_commit (SingleBuffer s) = SingleBuffer (commit commit_impl_SingleBuffer s)"
| "VariableState_commit (KVcache s) = KVcache (commit commit_impl_KVcache s)"

fun VariableState_reset :: "'a kernels \<Rightarrow> 'a VariableState \<Rightarrow> 'a VariableState" where
  "VariableState_reset k (DoubleBuffer s) = DoubleBuffer (reset (reset_impl_DoubleBuffer k) s)"
| "VariableState_reset k (SingleBuffer s) = SingleBuffer (reset (reset_impl_SingleBuffer k) s)"
| "VariableState_reset k (KVcache s) = KVcache (reset reset_impl_KVcache s)"

fun VariableState_is_reset_state :: "'a VariableState \<Rightarrow> bool" where
  "VariableState_is_reset_state (DoubleBuffer s) = is_reset_state s"
| "VariableState_is_reset_state (SingleBuffer s) = is_reset_state s"
| "VariableState_is_reset_state (KVcache s) = is_reset_state s"

subsection \<open>Observations\<close>

text \<open>
  What the properties read from a state: whether an order is a permutation of the
  dimensions \<open>0..<n\<close>; row (m, b, h) of a memory seen through
  \<^verbatim>\<open>PlainTensor::reset\<close> and \<^verbatim>\<open>permute(order)\<close>, as \<^verbatim>\<open>get_state\<close> reads it
  (the \<open>S\<close> elements at \<^verbatim>\<open>ptr_v(m, b, h)\<close>); and the entry of the beam table that
  \<^verbatim>\<open>get_state\<close> reads for batch \<open>b\<close> and step \<open>m\<close>.
\<close>

definition is_perm :: "nat \<Rightarrow> nat list \<Rightarrow> bool" where
  "is_perm n ord = (sort ord = [0..<n])"

definition tensor_row :: "'a Memory \<Rightarrow> nat list \<Rightarrow> nat \<Rightarrow> nat \<Rightarrow> nat \<Rightarrow> error + 'a list" where
  "tensor_row mem ord m b h =
     (case PlainTensor_reset mem of
        Inl e \<Rightarrow> Inl e
      | Inr t0 \<Rightarrow>
          (case permute t0 ord of
             Inl e \<Rightarrow> Inl e
           | Inr t \<Rightarrow> read_block (m_ptr t) (ptr_off t [m, b, h]) (m_dims t ! 3)))"

definition beam_entry :: "32 word Memory \<Rightarrow> nat \<Rightarrow> nat \<Rightarrow> error + nat" where
  "beam_entry hid b m =
     (case PlainTensor_reset hid of Inl e \<Rightarrow> Inl e | Inr beam_table \<Rightarrow> beam_table_at beam_table b m)"

text \<open>
  The by-group codec on one row: \<open>quant_chunk\<close> is what \<^verbatim>\<open>attn_quant_u8\<close> stores for one
  group, \<open>quant_row_by_group\<close> the stored values of the whole groups of a row of floats,
  \<open>dequant_row_by_group\<close> the floats of the first \<open>S div group_size\<close> groups of a stored
  row, with the scale and zero-point of group \<open>i\<close> at \<open>params_off i\<close> of the table; and
  \<open>external_row\<close> is row (m, b, h) of the state tensor as the quantising branch of
  \<^verbatim>\<open>set_state_impl\<close> reads it.
\<close>

definition quant_chunk :: "'a kernels \<Rightarrow> 'a list \<Rightarrow> 'a list" where
  "quant_chunk k xs = map (quant_elem k (fst (quant_params k xs)) (snd (quant_params k xs))) xs"

definition quant_row_by_group :: "'a kernels \<Rightarrow> nat \<Rightarrow> 'a list \<Rightarrow> 'a list" where
  "quant_row_by_group k group_size floats =
     concat (map (\<lambda>group_id. quant_chunk k (take group_size (drop (group_id * group_size) floats)))
               [0..<length floats div group_size])"

definition dequant_row_by_group ::
  "'a kernels \<Rightarrow> nat \<Rightarrow> nat \<Rightarrow> 'a list \<Rightarrow> (nat \<Rightarrow> nat) \<Rightarrow> 'a list \<Rightarrow> 'a list" where
  "dequant_row_by_group k group_size S params params_off qs =
     concat (map (\<lambda>group_id.
                    map (dequant_elem k (params ! params_off group_id)
                           (params ! (params_off group_id + 1)))
                      (take group_size (drop (group_id * group_size) qs)))
               [0..<S div group_size])"

definition external_row :: "'a Memory \<Rightarrow> nat list \<Rightarrow> nat \<Rightarrow> nat \<Rightarrow> nat \<Rightarrow> error + 'a list" where
  "external_row state ord m b h =
     (case getStaticDims (getDesc state) of
        Inl e \<Rightarrow> Inl e
      | Inr ds \<Rightarrow>
          (case permute \<lparr>m_dims = ds, m_strides = dense_strides ds,
                         m_dt = getPrecision (getDesc state), m_ptr = getData state\<rparr> ord of
             Inl e \<Rightarrow> Inl e
           | Inr t \<Rightarrow> read_block (m_ptr t) (ptr_off t [m, b, h]) (m_dims t ! 3)))"

subsection \<open>Example data\<close>

text \<open>
  A kernel instance on integers (conversions are the identity, the quantiser is the affine
  one with scale 1 and the negated minimum of the group as zero-point), and a small KV
  cache: external dims [B = 2, H = 2, L dynamic, S = 2], stored in the order [L, B, H, S].
\<close>

definition example_kernels :: "int kernels" where
  "example_kernels =
     \<lparr>uninit = - 1, uninit_i32 = 7, zero = 0,
      convert_elem = (\<lambda>src_prc dst_prc x. x),
      load_elem = (\<lambda>src_prc dst_prc x. x),
      quant_params = (\<lambda>xs. (1, - fold min xs (hd xs))),
      quant_elem = (\<lambda>sc z x. x + z),
      dequant_elem = (\<lambda>sc z q. (q - z) * sc)\<rparr>"

definition example_external_desc :: BlockedMemoryDesc where
  "example_external_desc =
     \<lparr>getPrecision = element_f32, getDims = [2, 2, UNDEFINED_DIM, 2], getOrder = [0, 1, 2, 3],
      getStrides = [UNDEFINED_DIM, UNDEFINED_DIM, UNDEFINED_DIM, 1]\<rparr>"

definition example_dense_desc :: BlockedMemoryDesc where
  "example_dense_desc =
     \<lparr>getPrecision = element_f32, getDims = [2, 2, UNDEFINED_DIM, 2], getOrder = [2, 0, 1, 3],
      getStrides = [UNDEFINED_DIM, UNDEFINED_DIM, UNDEFINED_DIM, 1]\<rparr>"

definition example_static_desc :: BlockedMemoryDesc where
  "example_static_desc = CpuBlockedMemoryDesc element_f32 [2, 2, 3, 2]"

definition example_internal_mem :: "int Memory" where
  "example_internal_mem =
     \<lparr>getDesc = \<lparr>getPrecision = element_f32, getDims = [2, 2, 3, 2], getOrder = [2, 0, 1, 3],
                 getStrides = [8, 4, 2, 1]\<rparr>,
      getData = [0, 1, 6, 7, 12, 13, 18, 19, 2, 3, 8, 9, 14, 15, 20, 21, 4, 5, 10, 11, 16, 17, 22, 23]\<rparr>"

definition example_hidden_state :: "32 word Memory" where
  "example_hidden_state =
     \<lparr>getDesc = CpuBlockedMemoryDesc element_i32 [2, 3], getData = [0, 1, 0, 1, 1, 1]\<rparr>"

definition example_kv :: "int VariableStateKVcache" where
  "example_kv =
     \<lparr>m_name = ''kv'', m_external_desc = example_external_desc, reset_state_flag = False,
      m_internal_mem = Some example_internal_mem, m_hidden_state = Some example_hidden_state,
      m_dense_internal_desc = example_dense_desc, m_quant_by_channel = False, m_group_size = 2,
      m_scale_zp = PlainTensor_empty, m_state = None,
      m_internal_mem_max_size = 24, m_hidden_state_max_size = 6\<rparr>"

definition example_state :: "int Memory" where
  "example_state = \<lparr>getDesc = example_static_desc, getData = map int [0..<24]\<rparr>"

text \<open>
  A quantised KV cache (storage precision u8, quantise by channel, group size 2) with
  external dims [B = 1, H = 1, L dynamic, S = 1], and a state tensor of four steps.
\<close>

definition example_channel_kv :: "int VariableStateKVcache" where
  "example_channel_kv =
     \<lparr>m_name = ''kv'',
      m_external_desc =
        \<lparr>getPrecision = element_f32, getDims = [1, 1, UNDEFINED_DIM, 1], getOrder = [0, 1, 2, 3],
         getStrides = [UNDEFINED_DIM, UNDEFINED_DIM, UNDEFINED_DIM, 1]\<rparr>,
      reset_state_flag = True, m_internal_mem = None, m_hidden_state = None,
      m_dense_internal_desc =
        \<lparr>getPrecision = element_u8, getDims = [1, 1, UNDEFINED_DIM, 1], getOrder = [2, 0, 1, 3],
         getStrides = [UNDEFINED_DIM, UNDEFINED_DIM, UNDEFINED_DIM, 1]\<rparr>,
      m_quant_by_channel = True, m_group_size = 2,
      m_scale_zp = PlainTensor_empty, m_state = None,
      m_internal_mem_max_size = 0, m_hidden_state_max_size = 0\<rparr>"

definition example_channel_state :: "int Memory" where
  "example_channel_state =
     \<lparr>getDesc = CpuBlockedMemoryDesc element_f32 [1, 1, 4, 1], getData = [10, 20, 30, 40]\<rparr>"

text \<open>
  A quantised KV cache (storage precision u8, quantise by group, group size 2) with
  external dims [B = 1, H = 1, L dynamic, S = 3], and a state tensor of one step.
\<close>

definition example_group_kv :: "int VariableStateKVcache" where
  "example_group_kv =
     \<lparr>m_name = ''kv'',
      m_external_desc =
        \<lparr>getPrecision = element_f32, getDims = [1, 1, UNDEFINED_DIM, 3], getOrder = [0, 1, 2, 3],
         getStrides = [UNDEFINED_DIM, UNDEFINED_DIM, UNDEFINED_DIM, 1]\<rparr>,
      reset_state_flag = True, m_internal_mem = None, m_hidden_state = None,
      m_dense_internal_desc =
        \<lparr>getPrecision = element_u8, getDims = [1, 1, UNDEFINED_DIM, 3], getOrder = [2, 0, 1, 3],
         getStrides = [UNDEFINED_DIM, UNDEFINED_DIM, UNDEFINED_DIM, 1]\<rparr>,
      m_quant_by_channel = False, m_group_size = 2,
      m_scale_zp = PlainTensor_empty, m_state = None,
      m_internal_mem_max_size = 0, m_hidden_state_max_size = 0\<rparr>"

definition example_group_state :: "int Memory" where
  "example_group_state =
     \<lparr>getDesc = CpuBlockedMemoryDesc element_f32 [1, 1, 1, 3], getData = [10, 20, 30]\<rparr>"

text \<open>The state after set_state on it, and the buffer that set_state stores.\<close>

definition example_group_kv_set :: "int VariableStateKVcache" where
  "example_group_kv_set =
     (case set_state (set_state_impl_KVcache example_kernels) example_group_state example_group_kv of
        Inr s \<Rightarrow> s
      | Inl e \<Rightarrow> example_group_kv)"

definition example_group_stored :: "int Memory" where
  "example_group_stored =
     \<lparr>getDesc = \<lparr>getPrecision = element_u8, getDims = [1, 1, 1, 3], getOrder = [2, 0, 1, 3],
                 getStrides = [3, 3, 3, 1]\<rparr>,
      getData = [0, 10, - 1]\<rparr>"

section \<open>Properties\<close>

subsection \<open>Descriptors\<close>

lemma to_static_Inr:
  "\<exists>d. to_static desc = Inr d
       \<and> getDims d = map (\<lambda>x. if x = UNDEFINED_DIM then 0 else x) (getDims desc)
       \<and> getPrecision d = getPrecision desc \<and> getOrder d = getOrder desc"
proof (cases "isDefined desc")
  case True
  then have "map (\<lambda>x. if x = UNDEFINED_DIM then 0 else x) (getDims desc) = getDims desc"
    by (intro map_idI) (auto simp: isDefined_def)
  with True show ?thesis by (simp add: to_static_def)
next
  case False
  have "UNDEFINED_DIM \<notin> set (map (\<lambda>x. if x = UNDEFINED_DIM then 0 else x) (getDims desc))"
    by (auto simp: UNDEFINED_DIM_def)
  with False show ?thesis
    by (simp add: to_static_def cloneWithNewDims_def)
qed

lemma to_static_dynamic_empty:
  assumes "isDynamic desc" and "to_static desc = Inr d"
  shows "getData (Memory_new fresh d) = []"
proof -
  from to_static_Inr [of desc] assms(2)
  have ds: "getDims d = map (\<lambda>x. if x = UNDEFINED_DIM then 0 else x) (getDims desc)"
    by auto
  from assms(1) have "0 \<in> set (getDims d)"
    unfolding ds isDynamic_def by (auto simp: image_iff)
  then have "prod_list (getDims d) = 0"
    by (simp add: prod_list_zero_iff)
  then show ?thesis by (simp add: Memory_new_def)
qed

lemma size_t_of_int32_of_nat:
  assumes "b < 2 ^ 31"
  shows "size_t_of_int32 (of_nat b) = b"
proof -
  from assms have "int b < 2 ^ 31" by (simp add: of_nat_less_numeral_power_cancel_iff)
  then have "signed_take_bit 31 (int b) = int b"
    by (intro signed_take_bit_int_eq_self) simp_all
  then have s: "sint (of_nat b :: 32 word) = int b"
    by (simp add: signed_of_nat)
  have "(scast (of_nat b :: 32 word) :: 64 word) = of_int (sint (of_nat b :: 32 word))"
    by (rule scast_eq)
  also have "\<dots> = of_nat b" using s by simp
  finally have "unat (scast (of_nat b :: 32 word) :: 64 word) = unat (of_nat b :: 64 word)"
    by simp
  also have "\<dots> = b"
    using assms by (simp add: unat_of_nat)
  finally show ?thesis by (simp add: size_t_of_int32_def)
qed

lemma getStaticDims_Inr:
  "getStaticDims desc = Inr ds \<Longrightarrow> ds = getDims desc \<and> UNDEFINED_DIM \<notin> set ds"
  by (auto simp: getStaticDims_def isStatic_def isDynamic_def split: if_splits)

lemma cloneWithNewDims_Inr:
  "cloneWithNewDims desc ds r = Inr d \<Longrightarrow>
     getDims d = ds \<and> getOrder d = getOrder desc \<and> getPrecision d = getPrecision desc
     \<and> getStrides d = dense_strides (blockedDims ds (getOrder desc))
     \<and> UNDEFINED_DIM \<notin> set ds \<and> length ds = length (getDims desc)"
  by (auto simp: cloneWithNewDims_def shape_isCompatible_def split: if_splits)

subsection \<open>Dense layouts\<close>

lemma length_dense_strides [simp]: "length (dense_strides ds) = length ds"
  by (induction ds) simp_all

lemma lin_dense_bound:
  "list_all2 (<) idx bd \<Longrightarrow> sum_list (map2 (*) idx (dense_strides bd)) < prod_list bd"
proof (induction idx bd rule: list_all2_induct)
  case Nil
  then show ?case by simp
next
  case (Cons i idx d bd)
  let ?r = "sum_list (map2 (*) idx (dense_strides bd))"
  have "i * prod_list bd + ?r < i * prod_list bd + prod_list bd"
    using Cons.IH by simp
  also have "\<dots> = Suc i * prod_list bd" by simp
  also have "\<dots> \<le> d * prod_list bd"
    using Cons.hyps(1) by (intro mult_le_mono1) simp
  finally show ?case by simp
qed

lemma lin_dense_inj:
  "list_all2 (<) idx bd \<Longrightarrow> list_all2 (<) idx' bd \<Longrightarrow>
   sum_list (map2 (*) idx (dense_strides bd)) = sum_list (map2 (*) idx' (dense_strides bd)) \<Longrightarrow>
   idx = idx'"
proof (induction idx bd arbitrary: idx' rule: list_all2_induct)
  case Nil
  then show ?case by simp
next
  case (Cons i idx d bd)
  from Cons.prems(1) obtain i' rest where idx': "idx' = i' # rest" and
    r: "list_all2 (<) rest bd" and "i' < d"
    by (auto simp: list_all2_Cons2)
  let ?P = "prod_list bd"
  let ?r = "sum_list (map2 (*) idx (dense_strides bd))"
  let ?r' = "sum_list (map2 (*) rest (dense_strides bd))"
  have b1: "?r < ?P" using Cons.hyps(2) by (rule lin_dense_bound)
  have b2: "?r' < ?P" using r by (rule lin_dense_bound)
  from Cons.prems(2) have e: "i * ?P + ?r = i' * ?P + ?r'"
    by (simp add: idx')
  from b1 have Ppos: "0 < ?P" by simp
  have "(i * ?P + ?r) div ?P = i" using b1 by simp
  moreover have "(i' * ?P + ?r') div ?P = i'" using b2 by simp
  ultimately have ii: "i = i'" using e by simp
  with e have "?r = ?r'" by simp
  with Cons.IH [OF r] ii show ?case by (simp add: idx')
qed


lemma fold_update_length [simp]:
  "length (fold (\<lambda>i st. st[f i := g i]) xs st) = length st"
  by (induction xs arbitrary: st) simp_all

lemma fold_update_frame:
  "p \<notin> f ` set xs \<Longrightarrow> fold (\<lambda>i st. st[f i := g i]) xs st ! p = st ! p"
  by (induction xs arbitrary: st) auto

lemma fold_update_nth:
  "distinct xs \<Longrightarrow> inj_on f (set xs) \<Longrightarrow> j \<in> set xs \<Longrightarrow> f j < length st \<Longrightarrow>
   fold (\<lambda>i st. st[f i := g i]) xs st ! (f j) = g j"
proof (induction xs arbitrary: st)
  case Nil
  then show ?case by simp
next
  case (Cons a xs)
  show ?case
  proof (cases "j = a")
    case True
    from Cons.prems(1,2) have "f a \<notin> f ` set xs" by (auto simp: inj_on_def)
    then have "fold (\<lambda>i st. st[f i := g i]) xs (st[f a := g a]) ! f a = st[f a := g a] ! f a"
      by (rule fold_update_frame)
    with True Cons.prems(4) show ?thesis by simp
  next
    case False
    with Cons.prems have "j \<in> set xs" "distinct xs" "inj_on f (set xs)" by (auto simp: inj_on_def)
    from Cons.IH [OF this(2,3,1), of "st[f a := g a]"] Cons.prems(4) show ?thesis by simp
  qed
qed

lemma is_perm_mset: "is_perm n ord \<Longrightarrow> mset ord = mset [0..<n]"
  by (metis is_perm_def mset_sort)

lemma is_perm_length: "is_perm n ord \<Longrightarrow> length ord = n"
  by (metis is_perm_mset length_upt minus_nat.diff_0 size_mset)

lemma is_perm_distinct: "is_perm n ord \<Longrightarrow> distinct ord"
  by (metis is_perm_mset distinct_upt mset_eq_imp_distinct_iff)

lemma is_perm_set: "is_perm n ord \<Longrightarrow> set ord = {0..<n}"
  by (metis is_perm_mset mset_eq_setD set_upt)

lemma is_perm_nth_less: "is_perm n ord \<Longrightarrow> i < n \<Longrightarrow> ord ! i < n"
  using is_perm_set [of n ord] is_perm_length [of n ord] by (metis atLeastLessThan_iff nth_mem)

lemma is_perm_surj: "is_perm n ord \<Longrightarrow> k < n \<Longrightarrow> \<exists>i<n. ord ! i = k"
  using is_perm_set [of n ord] is_perm_length [of n ord]
  by (metis atLeastLessThan_iff in_set_conv_nth zero_le)

lemma is_perm_sum_list:
  fixes F :: "nat \<Rightarrow> nat"
  assumes "is_perm n ord"
  shows "sum_list (map F ord) = sum_list (map F [0..<n])"
proof -
  have "sum_list (map F ord) = sum_mset (image_mset F (mset ord))"
    by (metis mset_map sum_mset_sum_list)
  also have "\<dots> = sum_mset (image_mset F (mset [0..<n]))"
    using assms by (simp add: is_perm_mset)
  also have "\<dots> = sum_list (map F [0..<n])"
    by (metis mset_map sum_mset_sum_list)
  finally show ?thesis .
qed

lemma logical_strides_length [simp]:
  "length (logical_strides ord st) = length st"
  by (simp add: logical_strides_def)

lemma logical_strides_nth:
  assumes "is_perm n ord" "length st = n" "i < n"
  shows "logical_strides ord st ! (ord ! i) = st ! i"
proof -
  have d: "distinct [0..<length ord]" by simp
  have inj: "inj_on (\<lambda>i. ord ! i) (set [0..<length ord])"
    using is_perm_distinct [OF assms(1)] by (auto simp: inj_on_def nth_eq_iff_index_eq)
  have mem: "i \<in> set [0..<length ord]" using assms by (simp add: is_perm_length)
  have lt: "ord ! i < length (replicate (length st) (0::nat))"
    using assms is_perm_nth_less by simp
  from fold_update_nth [OF d inj mem lt, of "\<lambda>i. st ! i"]
  show ?thesis by (simp add: logical_strides_def)
qed

text \<open>The offsets of a dense layout of order \<open>oe\<close>, seen through \<open>permute oi\<close>, are injective.\<close>

lemma permuted_dense_offset:
  assumes oe: "is_perm n oe" and oi: "is_perm n oi" and len: "length ds = n"
    and idx: "list_all2 (<) idx (map (\<lambda>j. ds ! j) oi)"
  defines "ls \<equiv> logical_strides oe (dense_strides (blockedDims ds oe))"
  defines "x \<equiv> logical_strides oi idx"
  shows "sum_list (map2 (*) idx (map (\<lambda>j. ls ! j) oi))
           = sum_list (map2 (*) (map (\<lambda>i. x ! i) oe) (dense_strides (blockedDims ds oe)))"
    and "list_all2 (<) (map (\<lambda>i. x ! i) oe) (blockedDims ds oe)"
proof -
  let ?bs = "dense_strides (blockedDims ds oe)"
  have lo: "length oe = n" "length oi = n" using oe oi by (simp_all add: is_perm_length)
  have li: "length idx = n" using idx lo by (auto dest: list_all2_lengthD)
  have lbs: "length ?bs = n" by (simp add: blockedDims_def lo)
  have x_nth: "x ! (oi ! j) = idx ! j" if "j < n" for j
    unfolding x_def using oi li that by (rule logical_strides_nth)
  have ls_nth: "ls ! (oe ! i) = ?bs ! i" if "i < n" for i
    unfolding ls_def using oe lbs that by (rule logical_strides_nth)
  define F where "F k = x ! k * ls ! k" for k
  have "map2 (*) idx (map (\<lambda>j. ls ! j) oi) = map F oi"
    by (rule nth_equalityI) (simp_all add: li lo F_def x_nth)
  moreover have "map2 (*) (map (\<lambda>i. x ! i) oe) ?bs = map F oe"
    by (rule nth_equalityI) (simp_all add: blockedDims_def lo F_def ls_nth)
  ultimately show "sum_list (map2 (*) idx (map (\<lambda>j. ls ! j) oi))
           = sum_list (map2 (*) (map (\<lambda>i. x ! i) oe) ?bs)"
    using is_perm_sum_list [OF oe, of F] is_perm_sum_list [OF oi, of F] by simp
  have xlt: "x ! k < ds ! k" if "k < n" for k
  proof -
    from is_perm_surj [OF oi that] obtain j where j: "j < n" "oi ! j = k" by blast
    from j li have "j < length idx" by simp
    with idx have "idx ! j < map (\<lambda>j. ds ! j) oi ! j"
      by (rule list_all2_nthD)
    with j lo have "idx ! j < ds ! (oi ! j)" by simp
    with x_nth [OF j(1)] j(2) show ?thesis by simp
  qed
  show "list_all2 (<) (map (\<lambda>i. x ! i) oe) (blockedDims ds oe)"
    unfolding blockedDims_def list_all2_conv_all_nth
    using xlt is_perm_nth_less [OF oe] by (simp add: lo)
qed

lemma permuted_dense_offset_inj:
  assumes oe: "is_perm n oe" and oi: "is_perm n oi" and len: "length ds = n"
    and idx: "list_all2 (<) idx (map (\<lambda>j. ds ! j) oi)"
    and idx': "list_all2 (<) idx' (map (\<lambda>j. ds ! j) oi)"
    and eq: "sum_list (map2 (*) idx
                 (map (\<lambda>j. logical_strides oe (dense_strides (blockedDims ds oe)) ! j) oi))
           = sum_list (map2 (*) idx'
                 (map (\<lambda>j. logical_strides oe (dense_strides (blockedDims ds oe)) ! j) oi))"
  shows "idx = idx'"
proof -
  let ?x = "logical_strides oi idx" and ?x' = "logical_strides oi idx'"
  have lo: "length oe = n" "length oi = n" using oe oi by (simp_all add: is_perm_length)
  have li: "length idx = n" "length idx' = n" using idx idx' lo by (auto dest: list_all2_lengthD)
  from permuted_dense_offset [OF oe oi len idx] permuted_dense_offset [OF oe oi len idx'] eq
  have "map (\<lambda>i. ?x ! i) oe = map (\<lambda>i. ?x' ! i) oe"
    by (intro lin_dense_inj [of _ "blockedDims ds oe"]) simp_all
  then have e: "?x ! (oe ! i) = ?x' ! (oe ! i)" if "i < n" for i
    using that lo by (metis nth_map)
  have e2: "?x ! k = ?x' ! k" if "k < n" for k
    using is_perm_surj [OF oe that] e by auto
  show ?thesis
  proof (rule nth_equalityI)
    show "length idx = length idx'" using li by simp
    fix j assume "j < length idx"
    then have j: "j < n" using li by simp
    have "idx ! j = ?x ! (oi ! j)" using logical_strides_nth [OF oi li(1) j] by simp
    also have "\<dots> = ?x' ! (oi ! j)" using e2 is_perm_nth_less [OF oi j] by simp
    also have "\<dots> = idx' ! j" using logical_strides_nth [OF oi li(2) j] by simp
    finally show "idx ! j = idx' ! j" .
  qed
qed

subsection \<open>Blocks, views and loops\<close>

lemma get_state_reorder_InrD:
  assumes "get_state_reorder k s mem hid = Inr out"
  shows "\<exists>ds ed output0 beam_table pastkv0 output pastkv outdata.
    getStaticDims (getDesc mem) = Inr ds
    \<and> cloneWithNewDims (m_external_desc s) ds False = Inr ed
    \<and> length ds = 4
    \<and> getOrder (getDesc mem) = getOrder (m_dense_internal_desc s)
    \<and> PlainTensor_reset (Memory_new (uninit k) ed) = Inr output0
    \<and> PlainTensor_reset hid = Inr beam_table
    \<and> PlainTensor_reset mem = Inr pastkv0
    \<and> permute output0 (getOrder (getDesc mem)) = Inr output
    \<and> permute pastkv0 (getOrder (getDesc mem)) = Inr pastkv
    \<and> m_strides pastkv ! 3 = 1 \<and> m_strides output ! 3 = 1
    \<and> (if m_dt pastkv = element_u8
         then (if m_quant_by_channel s
               then get_state_by_channel k (m_group_size s) (m_scale_zp s) pastkv beam_table output
                      (m_dims pastkv ! 0) (m_dims pastkv ! 1) (m_dims pastkv ! 2) (m_dims pastkv ! 3)
               else get_state_by_group k (m_group_size s) (m_scale_zp s) pastkv beam_table output
                      (m_dims pastkv ! 0) (m_dims pastkv ! 1) (m_dims pastkv ! 2) (m_dims pastkv ! 3))
         else get_state_plain k pastkv beam_table output
                (m_dims pastkv ! 0) (m_dims pastkv ! 1) (m_dims pastkv ! 2) (m_dims pastkv ! 3))
        = Inr outdata
    \<and> out = (Memory_new (uninit k) ed)\<lparr>getData := outdata\<rparr>"
  using assms
  unfolding get_state_reorder_def Let_def
  by (auto split: sum.splits if_splits dest: getStaticDims_Inr)


lemma write_block_Inr:
  "write_block dst off vals = Inr d \<Longrightarrow>
     off + length vals \<le> length dst \<and> length d = length dst
     \<and> (\<forall>p<length dst. d ! p = (if off \<le> p \<and> p < off + length vals then vals ! (p - off) else dst ! p))"
  by (auto simp: write_block_def nth_append split: if_splits)

lemma read_block_Inr:
  "read_block src off n = Inr xs \<Longrightarrow> off + n \<le> length src \<and> xs = take n (drop off src) \<and> length xs = n"
  by (auto simp: read_block_def split: if_splits)

lemma forM_write_rows_frame:
  assumes "forM ts (\<lambda>t out. case g t of Inl e \<Rightarrow> Inl e | Inr vals \<Rightarrow> write_block out (pos t) vals) out0
             = Inr out"
  shows "length out = length out0
         \<and> (\<forall>p<length out0.
               (\<forall>t\<in>set ts. \<forall>vals. g t = Inr vals \<longrightarrow> \<not> (pos t \<le> p \<and> p < pos t + length vals))
               \<longrightarrow> out ! p = out0 ! p)"
  using assms
proof (induction ts arbitrary: out0)
  case Nil
  then show ?case by simp
next
  case (Cons t ts)
  from Cons.prems obtain vals out1 where
    g: "g t = Inr vals" and w: "write_block out0 (pos t) vals = Inr out1" and
    r: "forM ts (\<lambda>t out. case g t of Inl e \<Rightarrow> Inl e | Inr vals \<Rightarrow> write_block out (pos t) vals) out1
          = Inr out"
    by (auto split: sum.splits)
  from write_block_Inr [OF w] have l1: "length out1 = length out0" and
    n1: "\<And>p. p < length out0 \<Longrightarrow>
           out1 ! p = (if pos t \<le> p \<and> p < pos t + length vals then vals ! (p - pos t) else out0 ! p)"
    by auto
  from Cons.IH [OF r] l1 g n1 show ?case by auto
qed

lemma forM_write_rows_nth:
  assumes "forM ts (\<lambda>t out. case g t of Inl e \<Rightarrow> Inl e | Inr vals \<Rightarrow> write_block out (pos t) vals) out0
             = Inr out"
    and "distinct ts" and "t \<in> set ts"
    and disj: "\<And>a b va vb i j. a \<in> set ts \<Longrightarrow> b \<in> set ts \<Longrightarrow> a \<noteq> b \<Longrightarrow> g a = Inr va \<Longrightarrow> g b = Inr vb
                 \<Longrightarrow> i < length va \<Longrightarrow> j < length vb \<Longrightarrow> pos a + i \<noteq> pos b + j"
  shows "\<exists>vals. g t = Inr vals \<and> pos t + length vals \<le> length out
               \<and> take (length vals) (drop (pos t) out) = vals"
  using assms
proof (induction ts arbitrary: out0)
  case Nil
  then show ?case by simp
next
  case (Cons a ts)
  let ?f = "\<lambda>t out. case g t of Inl e \<Rightarrow> Inl e | Inr vals \<Rightarrow> write_block out (pos t) vals"
  from Cons.prems(1) obtain vals out1 where
    g: "g a = Inr vals" and w: "write_block out0 (pos a) vals = Inr out1" and
    r: "forM ts ?f out1 = Inr out"
    by (auto split: sum.splits)
  show ?case
  proof (cases "t = a")
    case True
    from write_block_Inr [OF w] have fit: "pos a + length vals \<le> length out0"
      and l1: "length out1 = length out0"
      and n1: "\<And>p. p < length out0 \<Longrightarrow>
           out1 ! p = (if pos a \<le> p \<and> p < pos a + length vals then vals ! (p - pos a) else out0 ! p)"
      by auto
    from forM_write_rows_frame [OF r] have l2: "length out = length out1" and
      fr: "\<And>p. p < length out1 \<Longrightarrow>
             (\<forall>t\<in>set ts. \<forall>v. g t = Inr v \<longrightarrow> \<not> (pos t \<le> p \<and> p < pos t + length v))
             \<Longrightarrow> out ! p = out1 ! p"
      by auto
    have "take (length vals) (drop (pos a) out) = vals"
    proof (rule nth_equalityI)
      show "length (take (length vals) (drop (pos a) out)) = length vals"
        using fit l1 l2 by simp
      fix i assume "i < length (take (length vals) (drop (pos a) out))"
      then have i: "i < length vals" by simp
      have untouched: "\<forall>t\<in>set ts. \<forall>v. g t = Inr v \<longrightarrow> \<not> (pos t \<le> pos a + i \<and> pos a + i < pos t + length v)"
      proof (intro ballI allI impI notI)
        fix b v assume b: "b \<in> set ts" and gb: "g b = Inr v"
          and in_b: "pos b \<le> pos a + i \<and> pos a + i < pos b + length v"
        from b Cons.prems(2) have ne: "a \<noteq> b" by auto
        from in_b have j: "pos a + i - pos b < length v" by arith
        from Cons.prems(4) [of a b vals v i "pos a + i - pos b"] ne b g gb i j in_b
        show False by simp
      qed
      have "out ! (pos a + i) = out1 ! (pos a + i)"
        using fr [OF _ untouched] fit l1 i by simp
      also have "\<dots> = vals ! i" using n1 [of "pos a + i"] fit i by simp
      finally show "take (length vals) (drop (pos a) out) ! i = vals ! i"
        using i fit l1 l2 by simp
    qed
    with g fit l1 l2 True show ?thesis by simp
  next
    case False
    with Cons.prems have t: "t \<in> set ts" and d: "distinct ts" by auto
    show ?thesis
      using Cons.IH [OF r d t] Cons.prems(4) by auto
  qed
qed

lemma PlainTensor_reset_Inr:
  "PlainTensor_reset mem = Inr t \<Longrightarrow>
     m_dims t = getDims (getDesc mem)
     \<and> m_strides t = logical_strides (getOrder (getDesc mem)) (getStrides (getDesc mem))
     \<and> m_dt t = getPrecision (getDesc mem) \<and> m_ptr t = getData mem
     \<and> length (getOrder (getDesc mem)) = length (getDims (getDesc mem))
     \<and> length (getStrides (getDesc mem)) = length (getDims (getDesc mem))"
  by (auto simp: PlainTensor_reset_def split: sum.splits if_splits dest: getStaticDims_Inr)

lemma PlainTensor_reset_data:
  "PlainTensor_reset mem = Inr t \<Longrightarrow> PlainTensor_reset (mem\<lparr>getData := d\<rparr>) = Inr (t\<lparr>m_ptr := d\<rparr>)"
  by (auto simp: PlainTensor_reset_def split: sum.splits if_splits)

lemma permute_Inr:
  "permute t ord = Inr t' \<Longrightarrow>
     m_dims t' = map (\<lambda>j. m_dims t ! j) ord \<and> m_strides t' = map (\<lambda>j. m_strides t ! j) ord
     \<and> m_dt t' = m_dt t \<and> m_ptr t' = m_ptr t \<and> length ord = length (m_dims t)"
  by (auto simp: permute_def split: if_splits)

lemma permute_data:
  "permute t ord = Inr t' \<Longrightarrow> permute (t\<lparr>m_ptr := d\<rparr>) ord = Inr (t'\<lparr>m_ptr := d\<rparr>)"
  by (auto simp: permute_def split: if_splits)

lemma ptr_off_data [simp]: "ptr_off (t\<lparr>m_ptr := d\<rparr>) idx = ptr_off t idx"
  by (simp add: ptr_off_def)

lemma ptr_off_row_elem:
  assumes "length (m_strides t) = 4" "m_strides t ! 3 = 1"
  shows "ptr_off t [m, b, h] + i = sum_list (map2 (*) [m, b, h, i] (m_strides t))"
proof -
  from assms(1) obtain s0 s1 s2 s3 where st: "m_strides t = [s0, s1, s2, s3]"
    by (auto simp: length_Suc_conv numeral_eq_Suc)
  with assms(2) show ?thesis by (simp add: ptr_off_def)
qed

lemma distinct_triples: "distinct (triples D0 D1 D2)"
  by (simp add: triples_def distinct_product)

lemma set_triples: "(a, b, c) \<in> set (triples D0 D1 D2) \<longleftrightarrow> a < D0 \<and> b < D1 \<and> c < D2"
  by (auto simp: triples_def)


lemma output_rows_disjoint:
  assumes oe: "is_perm 4 oe" and oi: "is_perm 4 oi" and len: "length ds = 4"
    and st: "m_strides output = map (\<lambda>j. logical_strides oe (dense_strides (blockedDims ds oe)) ! j) oi"
    and dims: "map (\<lambda>j. ds ! j) oi = [L0, B, H, S]"
    and one: "m_strides output ! 3 = 1"
    and a: "m < L0" "b < B" "h < H" "i < S"
    and a': "m' < L0" "b' < B" "h' < H" "j < S"
    and eq: "ptr_off output [m, b, h] + i = ptr_off output [m', b', h'] + j"
  shows "m = m' \<and> b = b' \<and> h = h' \<and> i = j"
proof -
  have l4: "length (m_strides output) = 4"
    using st is_perm_length [OF oi] by simp
  have e: "sum_list (map2 (*) [m, b, h, i] (m_strides output))
         = sum_list (map2 (*) [m', b', h', j] (m_strides output))"
    using eq ptr_off_row_elem [OF l4 one] by simp
  have v: "list_all2 (<) [m, b, h, i] (map (\<lambda>j. ds ! j) oi)"
    using a by (simp add: dims)
  have v': "list_all2 (<) [m', b', h', j] (map (\<lambda>j. ds ! j) oi)"
    using a' by (simp add: dims)
  from permuted_dense_offset_inj [OF oe oi len v v'] e
  have "[m, b, h, i] = [m', b', h', j]" by (simp add: st)
  then show ?thesis by simp
qed




subsection \<open>Lifecycle\<close>

text \<open>
  Claim C6. Constructing a KVCache state with an external descriptor whose shape is static
  fails with a construction error; the construction succeeds exactly when the external
  descriptor is dynamic-shaped.
\<close>

theorem C6_kvcache_construction:
  "((VariableStateKVcache_new name external_desc dense_internal_desc quant_by_channel group_size
       = (Inl ConstructionError :: error + 'a VariableStateKVcache)) = isStatic external_desc)
   \<and> ((\<exists>s :: 'a VariableStateKVcache.
          VariableStateKVcache_new name external_desc dense_internal_desc quant_by_channel group_size
          = Inr s) = isDynamic external_desc)"
  by (simp add: VariableStateKVcache_new_def isStatic_def)

text \<open>
  Claim C7. For a KVCache state, reset() and commit() leave the internal cache buffer, the
  beam table and the scale/zero-point table unchanged: the state after the call is the
  state before it with the reset flag set (reset) or cleared (commit).
\<close>

theorem C7_kvcache_reset_commit_frame:
  "reset reset_impl_KVcache s = s\<lparr>reset_state_flag := True\<rparr>
   \<and> commit commit_impl_KVcache s = s\<lparr>reset_state_flag := False\<rparr>
   \<and> m_internal_mem (reset reset_impl_KVcache s) = m_internal_mem s
   \<and> m_hidden_state (reset reset_impl_KVcache s) = m_hidden_state s
   \<and> m_scale_zp (reset reset_impl_KVcache s) = m_scale_zp s
   \<and> m_internal_mem (commit commit_impl_KVcache s) = m_internal_mem s
   \<and> m_hidden_state (commit commit_impl_KVcache s) = m_hidden_state s
   \<and> m_scale_zp (commit commit_impl_KVcache s) = m_scale_zp s
   \<and> is_reset_state (reset reset_impl_KVcache s)
   \<and> \<not> is_reset_state (commit commit_impl_KVcache s)"
  by (simp add: reset_def commit_def reset_impl_KVcache_def commit_impl_KVcache_def
        is_reset_state_def)

text \<open>
  Claim C8. For every state variant (DoubleBuffer, SingleBuffer, KVCache) and every prior
  value of the flag, is_reset_state() is false after commit().
\<close>

theorem C8_commit_clears_reset_flag:
  "\<not> VariableState_is_reset_state (VariableState_commit v)"
  by (cases v) (simp_all add: commit_def is_reset_state_def)

subsection \<open>The empty result of get_state\<close>

lemma get_state_KVcache_empty:
  assumes "is_reset_state s \<or> m_internal_mem s = None \<or> m_hidden_state s = None"
    and "to_static (m_external_desc s) = Inr d"
  shows "get_state_KVcache k s = Inr (Memory_new (uninit k) d)"
  using assms by (elim disjE) (simp_all add: get_state_KVcache_def)

text \<open>
  Claim C4. If the reset flag of a KVCache state is set, or no internal buffer is allocated,
  get_state() returns a fresh tensor for the static form of the external descriptor (every
  undefined dimension is 0): the result is determined by the external descriptor alone, no
  element of the stored history is copied, and for a dynamic descriptor it has no element.
\<close>

theorem C4_get_state_reset_is_empty:
  assumes "is_reset_state s \<or> m_internal_mem s = None"
  shows "\<exists>d. to_static (m_external_desc s) = Inr d
           \<and> getDims d = map (\<lambda>x. if x = UNDEFINED_DIM then 0 else x) (getDims (m_external_desc s))
           \<and> get_state_KVcache k s = Inr (Memory_new (uninit k) d)
           \<and> (isDynamic (m_external_desc s) \<longrightarrow> getData (Memory_new (uninit k) d) = [])"
proof -
  from to_static_Inr [of "m_external_desc s"] obtain d where
    d: "to_static (m_external_desc s) = Inr d"
       "getDims d = map (\<lambda>x. if x = UNDEFINED_DIM then 0 else x) (getDims (m_external_desc s))"
    by blast
  from assms have "is_reset_state s \<or> m_internal_mem s = None \<or> m_hidden_state s = None"
    by blast
  from this d(1) have g: "get_state_KVcache k s = Inr (Memory_new (uninit k) d)"
    by (rule get_state_KVcache_empty)
  have e: "isDynamic (m_external_desc s) \<longrightarrow> getData (Memory_new (uninit k) d) = []"
    using to_static_dynamic_empty [OF _ d(1), of "uninit k"] by simp
  from d g e show ?thesis by (intro exI [of _ d] conjI)
qed

theorem C4_witness:
  "is_reset_state (example_kv\<lparr>reset_state_flag := True\<rparr>)
   \<and> m_internal_mem (example_kv\<lparr>reset_state_flag := True\<rparr>) = Some example_internal_mem
   \<and> get_state_KVcache example_kernels (example_kv\<lparr>reset_state_flag := True\<rparr>)
       = Inr \<lparr>getDesc = \<lparr>getPrecision = element_f32, getDims = [2, 2, 0, 2],
                          getOrder = [0, 1, 2, 3], getStrides = [0, 0, 2, 1]\<rparr>,
              getData = []\<rparr>"
proof -
  have flag: "is_reset_state (example_kv\<lparr>reset_state_flag := True\<rparr>)"
    by (simp add: is_reset_state_def)
  have stat: "to_static (m_external_desc (example_kv\<lparr>reset_state_flag := True\<rparr>))
      = Inr \<lparr>getPrecision = element_f32, getDims = [2, 2, 0, 2],
             getOrder = [0, 1, 2, 3], getStrides = [0, 0, 2, 1]\<rparr>"
    by (simp add: example_kv_def example_external_desc_def to_static_def isDefined_def
          cloneWithNewDims_def blockedDims_def UNDEFINED_DIM_def)
  from C4_get_state_reset_is_empty [of "example_kv\<lparr>reset_state_flag := True\<rparr>" example_kernels] flag
  obtain d where d: "to_static (m_external_desc (example_kv\<lparr>reset_state_flag := True\<rparr>)) = Inr d"
    and res: "get_state_KVcache example_kernels (example_kv\<lparr>reset_state_flag := True\<rparr>)
          = Inr (Memory_new (uninit example_kernels) d)"
    by blast
  from d stat have "d = \<lparr>getPrecision = element_f32, getDims = [2, 2, 0, 2],
             getOrder = [0, 1, 2, 3], getStrides = [0, 0, 2, 1]\<rparr>"
    by simp
  with res flag show ?thesis
    by (simp add: Memory_new_def isDefined_def UNDEFINED_DIM_def example_kv_def)
qed

text \<open>
  Claim C10. get_state() of a KVCache state also returns the empty static-shaped tensor
  whenever the beam-table buffer has not been assigned, even if the internal cache buffer
  exists, holds data and the reset flag is cleared.
\<close>

theorem C10_get_state_without_beam_table:
  assumes "m_hidden_state s = None"
  shows "\<exists>d. to_static (m_external_desc s) = Inr d
           \<and> getDims d = map (\<lambda>x. if x = UNDEFINED_DIM then 0 else x) (getDims (m_external_desc s))
           \<and> get_state_KVcache k s = Inr (Memory_new (uninit k) d)
           \<and> (isDynamic (m_external_desc s) \<longrightarrow> getData (Memory_new (uninit k) d) = [])"
proof -
  from to_static_Inr [of "m_external_desc s"] obtain d where
    d: "to_static (m_external_desc s) = Inr d"
       "getDims d = map (\<lambda>x. if x = UNDEFINED_DIM then 0 else x) (getDims (m_external_desc s))"
    by blast
  from assms have "is_reset_state s \<or> m_internal_mem s = None \<or> m_hidden_state s = None"
    by blast
  from this d(1) have g: "get_state_KVcache k s = Inr (Memory_new (uninit k) d)"
    by (rule get_state_KVcache_empty)
  have e: "isDynamic (m_external_desc s) \<longrightarrow> getData (Memory_new (uninit k) d) = []"
    using to_static_dynamic_empty [OF _ d(1), of "uninit k"] by simp
  from d g e show ?thesis by (intro exI [of _ d] conjI)
qed

theorem C10_witness:
  "m_hidden_state (assign_hidden_state None example_kv) = None
   \<and> m_internal_mem (assign_hidden_state None example_kv) = Some example_internal_mem
   \<and> \<not> is_reset_state (assign_hidden_state None example_kv)
   \<and> get_state_KVcache example_kernels (assign_hidden_state None example_kv)
       = Inr \<lparr>getDesc = \<lparr>getPrecision = element_f32, getDims = [2, 2, 0, 2],
                          getOrder = [0, 1, 2, 3], getStrides = [0, 0, 2, 1]\<rparr>,
              getData = []\<rparr>"
proof -
  have hid: "m_hidden_state (assign_hidden_state None example_kv) = None"
    by (simp add: assign_hidden_state_def)
  have stat: "to_static (m_external_desc (assign_hidden_state None example_kv))
      = Inr \<lparr>getPrecision = element_f32, getDims = [2, 2, 0, 2],
             getOrder = [0, 1, 2, 3], getStrides = [0, 0, 2, 1]\<rparr>"
    by (simp add: assign_hidden_state_def example_kv_def example_external_desc_def to_static_def
          isDefined_def cloneWithNewDims_def blockedDims_def UNDEFINED_DIM_def)
  from C10_get_state_without_beam_table [OF hid, of example_kernels]
  obtain d where d: "to_static (m_external_desc (assign_hidden_state None example_kv)) = Inr d"
    and res: "get_state_KVcache example_kernels (assign_hidden_state None example_kv)
          = Inr (Memory_new (uninit example_kernels) d)"
    by blast
  from d stat have "d = \<lparr>getPrecision = element_f32, getDims = [2, 2, 0, 2],
             getOrder = [0, 1, 2, 3], getStrides = [0, 0, 2, 1]\<rparr>"
    by simp
  with res hid show ?thesis
    by (simp add: Memory_new_def isDefined_def UNDEFINED_DIM_def example_kv_def
          assign_hidden_state_def is_reset_state_def)
qed

subsection \<open>The beam table written by set_state\<close>

lemma beam_row_fill:
  "n \<le> size_L \<Longrightarrow> i * size_L + size_L \<le> length buff \<Longrightarrow>
   fold (\<lambda>j buff2. buff2[i * size_L + j := v]) [0..<n] buff
     = take (i * size_L) buff @ replicate n v @ drop (i * size_L + n) buff"
proof (induction n)
  case 0
  then show ?case by simp
next
  case (Suc n)
  then have IH: "fold (\<lambda>j buff2. buff2[i * size_L + j := v]) [0..<n] buff
     = take (i * size_L) buff @ replicate n v @ drop (i * size_L + n) buff"
    by simp
  from Suc.prems have len: "i * size_L + n < length buff" by simp
  have "drop (i * size_L + n) buff = buff ! (i * size_L + n) # drop (i * size_L + Suc n) buff"
    using len by (simp add: Cons_nth_drop_Suc)
  then show ?case
    using len by (simp add: IH list_update_append replicate_append_same)
qed

lemma beam_table_init_rows:
  "m \<le> size_B \<Longrightarrow> length buff = size_B * size_L \<Longrightarrow>
   fold (\<lambda>i buff1. fold (\<lambda>j buff2. buff2[i * size_L + j := of_nat i]) [0..<size_L] buff1) [0..<m]
       (buff :: 32 word list)
     = concat (map (\<lambda>i. replicate size_L (of_nat i)) [0..<m]) @ drop (m * size_L) buff"
proof (induction m)
  case 0
  then show ?case by simp
next
  case (Suc m)
  let ?pre = "concat (map (\<lambda>i. replicate size_L (of_nat i :: 32 word)) [0..<m])"
  have lp: "length ?pre = m * size_L"
    by (induction m) simp_all
  from Suc.prems have "Suc m * size_L \<le> size_B * size_L"
    by (intro mult_le_mono1)
  with Suc.prems have fit: "m * size_L + size_L \<le> length (?pre @ drop (m * size_L) buff)"
    by (simp add: lp)
  from Suc show ?case
    using beam_row_fill [OF le_refl fit, of "of_nat m"]
    by (simp add: lp)
qed

lemma beam_table_init_eq:
  "length buff = size_B * size_L \<Longrightarrow>
   beam_table_init buff size_B size_L = concat (map (\<lambda>i. replicate size_L (of_nat i)) [0..<size_B])"
  using beam_table_init_rows [of size_B size_B buff size_L]
  by (simp add: beam_table_init_def)

lemma nth_concat_rows:
  "b < size_B \<Longrightarrow> l < size_L \<Longrightarrow>
   concat (map (\<lambda>i. replicate size_L (f i)) [0..<size_B]) ! (b * size_L + l) = f b"
proof (induction size_B)
  case 0
  then show ?case by simp
next
  case (Suc n)
  have len: "length (concat (map (\<lambda>i. replicate size_L (f i)) [0..<n])) = n * size_L"
    by (induction n) simp_all
  show ?case
  proof (cases "b < n")
    case True
    then have "Suc b * size_L \<le> n * size_L" by (intro mult_le_mono1) simp
    with Suc True show ?thesis by (simp add: nth_append len)
  next
    case False
    with Suc.prems have "b = n" by simp
    with Suc.prems show ?thesis by (simp add: nth_append len)
  qed
qed

lemma length_concat_rows:
  "length (concat (map (\<lambda>i. replicate size_L (f i)) [0..<size_B])) = size_B * size_L"
  by (induction size_B) simp_all


lemma set_state_impl_KVcache_hidden:
  assumes "set_state_impl_KVcache k state s = Inr s'"
  shows "\<exists>ds. getStaticDims (getDesc state) = Inr ds
           \<and> 2 \<le> length (getOrder (m_dense_internal_desc s))
           \<and> getOrder (m_dense_internal_desc s) ! 0 < length ds
           \<and> getOrder (m_dense_internal_desc s) ! 1 < length ds
           \<and> m_hidden_state s' =
               Some ((Memory_new (uninit_i32 k)
                        (CpuBlockedMemoryDesc element_i32
                           [ds ! (getOrder (m_dense_internal_desc s) ! 1),
                            ds ! (getOrder (m_dense_internal_desc s) ! 0)]))
                     \<lparr>getData := beam_table_init
                        (getData (Memory_new (uninit_i32 k)
                           (CpuBlockedMemoryDesc element_i32
                              [ds ! (getOrder (m_dense_internal_desc s) ! 1),
                               ds ! (getOrder (m_dense_internal_desc s) ! 0)])))
                        (ds ! (getOrder (m_dense_internal_desc s) ! 1))
                        (ds ! (getOrder (m_dense_internal_desc s) ! 0))\<rparr>)"
proof -
  from assms obtain ds where ds: "getStaticDims (getDesc state) = Inr ds"
    by (auto simp: set_state_impl_KVcache_def Let_def split: sum.splits)
  from assms ds obtain did where did: "cloneWithNewDims (m_dense_internal_desc s) ds False = Inr did"
    by (auto simp: set_state_impl_KVcache_def Let_def split: sum.splits)
  from cloneWithNewDims_Inr [OF did] have dd: "getDims did = ds" by simp
  from assms ds did dd show ?thesis
    by (auto simp: set_state_impl_KVcache_def Let_def split: sum.splits if_splits prod.splits)
qed

text \<open>
  Claim C3. After a set_state(T) that returns, where T has the internal-layout dims
  [L, B, H, S], the beam table is a fresh int32 matrix of shape [B, L] that holds the
  identity mapping: the entry of batch b and row l is b, and get_state reads it as b (the
  entry is the 32-bit value of b, read back as b for every b below 2^31).
\<close>

theorem C3_set_state_beam_table_identity:
  assumes "set_state (set_state_impl_KVcache k) state s = Inr s'"
    and "blockedDims (getDims (getDesc state)) (getOrder (m_dense_internal_desc s)) = [L, B, H, S]"
  shows "\<exists>hid bt. m_hidden_state s' = Some hid
           \<and> getDesc hid = CpuBlockedMemoryDesc element_i32 [B, L]
           \<and> length (getData hid) = B * L
           \<and> PlainTensor_reset hid = Inr bt
           \<and> (\<forall>b<B. \<forall>l<L. getData hid ! (b * L + l) = of_nat b
                          \<and> (b < 2 ^ 31 \<longrightarrow> beam_table_at bt b l = Inr b))"
proof -
  let ?ord = "getOrder (m_dense_internal_desc s)"
  from assms(1) obtain s1 where s1: "set_state_impl_KVcache k state s = Inr s1"
    and s': "s' = s1\<lparr>reset_state_flag := False\<rparr>"
    by (auto simp: set_state_def split: sum.splits)
  from set_state_impl_KVcache_hidden [OF s1] obtain ds where
    ds: "getStaticDims (getDesc state) = Inr ds" and
    o0: "?ord ! 0 < length ds" and o1: "?ord ! 1 < length ds" and len: "2 \<le> length ?ord" and
    hid: "m_hidden_state s1 =
               Some ((Memory_new (uninit_i32 k)
                        (CpuBlockedMemoryDesc element_i32 [ds ! (?ord ! 1), ds ! (?ord ! 0)]))
                     \<lparr>getData := beam_table_init
                        (getData (Memory_new (uninit_i32 k)
                           (CpuBlockedMemoryDesc element_i32 [ds ! (?ord ! 1), ds ! (?ord ! 0)])))
                        (ds ! (?ord ! 1)) (ds ! (?ord ! 0))\<rparr>)"
    by blast
  from getStaticDims_Inr [OF ds] have dsd: "ds = getDims (getDesc state)" and
    undef: "UNDEFINED_DIM \<notin> set ds" by auto
  from assms(2) len have L: "ds ! (?ord ! 0) = L" and B: "ds ! (?ord ! 1) = B"
    unfolding blockedDims_def dsd [symmetric]
    by (cases ?ord; cases "tl ?ord"; simp)+
  from o0 undef L have Lu: "L \<noteq> UNDEFINED_DIM" by (metis nth_mem)
  from o1 undef B have Bu: "B \<noteq> UNDEFINED_DIM" by (metis nth_mem)
  define hidm where "hidm = (Memory_new (uninit_i32 k) (CpuBlockedMemoryDesc element_i32 [B, L]))
       \<lparr>getData := beam_table_init
          (getData (Memory_new (uninit_i32 k) (CpuBlockedMemoryDesc element_i32 [B, L]))) B L\<rparr>"
  have h1: "m_hidden_state s' = Some hidm"
    using hid L B s' by (simp add: hidm_def)
  have fresh: "getData (Memory_new (uninit_i32 k) (CpuBlockedMemoryDesc element_i32 [B, L]))
        = replicate (B * L) (uninit_i32 k)"
    using Lu Bu by (simp add: Memory_new_def CpuBlockedMemoryDesc_def isDefined_def)
  have data: "getData hidm = concat (map (\<lambda>i. replicate L (of_nat i)) [0..<B])"
    by (simp add: hidm_def fresh beam_table_init_eq)
  have h2: "getDesc hidm = CpuBlockedMemoryDesc element_i32 [B, L]"
    by (simp add: hidm_def Memory_new_def)
  have h3: "length (getData hidm) = B * L"
    by (simp add: data length_concat_rows)
  define bt where "bt = \<lparr>m_dims = [B, L], m_strides = [L, 1], m_dt = element_i32,
                          m_ptr = getData hidm\<rparr>"
  have h4: "PlainTensor_reset hidm = Inr bt"
    using Lu Bu
    by (simp add: PlainTensor_reset_def h2 CpuBlockedMemoryDesc_def getStaticDims_def isStatic_def
          isDynamic_def logical_strides_def bt_def upt_rec)
  have h5: "getData hidm ! (b * L + l) = of_nat b \<and> (b < 2 ^ 31 \<longrightarrow> beam_table_at bt b l = Inr b)"
    if "b < B" "l < L" for b l
  proof -
    have v: "getData hidm ! (b * L + l) = of_nat b"
      using that by (simp add: data nth_concat_rows)
    have "Suc b * L \<le> B * L" using that by (intro mult_le_mono1) simp
    with that have inb: "b * L + l < length (getData hidm)"
      by (simp add: h3)
    with v inb size_t_of_int32_of_nat [of b] show ?thesis
      by (simp add: beam_table_at_def bt_def ptr_off_def)
  qed
  from h1 h2 h3 h4 h5 show ?thesis by blast
qed


theorem C3_witness:
  "\<exists>s' hid bt. set_state (set_state_impl_KVcache example_kernels) example_state example_kv = Inr s'
      \<and> blockedDims (getDims (getDesc example_state)) (getOrder (m_dense_internal_desc example_kv))
          = [3, 2, 2, 2]
      \<and> m_hidden_state s' = Some hid
      \<and> getDesc hid = CpuBlockedMemoryDesc element_i32 [2, 3]
      \<and> PlainTensor_reset hid = Inr bt
      \<and> getData hid ! (1 * 3 + 2) = 1
      \<and> beam_table_at bt 1 2 = Inr 1"
proof -
  have "\<not> isl (set_state (set_state_impl_KVcache example_kernels) example_state example_kv)"
    by code_simp
  then obtain s' where
    s': "set_state (set_state_impl_KVcache example_kernels) example_state example_kv = Inr s'"
    by (cases "set_state (set_state_impl_KVcache example_kernels) example_state example_kv") auto
  have bd: "blockedDims (getDims (getDesc example_state)) (getOrder (m_dense_internal_desc example_kv))
          = [3, 2, 2, 2]"
    by code_simp
  from C3_set_state_beam_table_identity [OF s' bd] obtain hid bt where
    h: "m_hidden_state s' = Some hid" "getDesc hid = CpuBlockedMemoryDesc element_i32 [2, 3]"
       "PlainTensor_reset hid = Inr bt"
       "\<forall>b<2. \<forall>l<3. getData hid ! (b * 3 + l) = of_nat b
                       \<and> (b < 2 ^ 31 \<longrightarrow> beam_table_at bt b l = Inr b)"
    by blast
  from h(4) have "getData hid ! (1 * 3 + 2) = of_nat 1 \<and> beam_table_at bt 1 2 = Inr 1"
    by (elim allE [of _ 1] allE [of _ 2] impE) simp_all
  with s' bd h(1-3) show ?thesis by auto
qed

subsection \<open>Beam reordering in get_state\<close>




subsection \<open>Quantisation by channel in set_state\<close>

text \<open>
  Claim C2 says that set_state, quantising by channel, quantises for group \<open>group_id\<close>
  the steps \<open>group_id * group_size\<close> onwards. The source converts the chunk that starts at
  step \<open>valid_seq\<close> instead (\<^verbatim>\<open>external.ptr_v(valid_seq, b, h)\<close>), while it writes the
  stored values and the table at \<open>group_id * group_size\<close> and \<open>group_id * 2\<close>. On the
  steps [10, 20, 30, 40] with group size 2, both groups quantise the steps [30, 40]: the
  zero-point of group 0 is that of [30, 40], not that of [10, 20], and get_state returns
  [30, 40, 30, 40].
\<close>

theorem C2_by_channel_reads_chunk_at_valid_seq:
  "(case set_state (set_state_impl_KVcache example_kernels) example_channel_state example_channel_kv of
      Inl e \<Rightarrow> False
    | Inr s' \<Rightarrow>
        map_option getData (m_internal_mem s') = Some [0, 10, 0, 10]
        \<and> m_dims (m_scale_zp s') = [4, 1, 1, 1]
        \<and> m_ptr (m_scale_zp s') = [1, - 30, 1, - 30]
        \<and> quant_params example_kernels [10, 20] = (1, - 10)
        \<and> quant_params example_kernels [30, 40] = (1, - 30)
        \<and> (case get_state_KVcache example_kernels s' of
               Inl e \<Rightarrow> False
             | Inr out \<Rightarrow> getData out = [30, 40, 30, 40]))"
  by code_simp

subsection \<open>Quantisation by group\<close>

lemma forM_append:
  "forM (xs @ ys) f s = (case forM xs f s of Inl e \<Rightarrow> Inl e | Inr s' \<Rightarrow> forM ys f s')"
  by (induction xs arbitrary: s) (auto split: sum.splits)

lemma write_block_append:
  assumes "write_block d0 base A = Inr d1" and "write_block d1 (base + length A) B = Inr d2"
  shows "write_block d0 base (A @ B) = Inr d2"
proof -
  from assms(1) have fit1: "base + length A \<le> length d0"
    and d1: "d1 = take base d0 @ A @ drop (base + length A) d0"
    by (auto simp: write_block_def split: if_splits)
  from d1 fit1 have l1: "length d1 = length d0" by simp
  from assms(2) l1 have fit2: "base + (length A + length B) \<le> length d0"
    and d2: "d2 = take (base + length A) d1 @ B @ drop (base + (length A + length B)) d1"
    by (auto simp: write_block_def add.assoc split: if_splits)
  have t: "take (base + length A) d1 = take base d0 @ A"
    using fit1 by (simp add: d1)
  have "drop (base + (length A + length B)) d1
      = drop (length B) (drop (base + length A) d1)"
    by (simp add: add.commute add.left_commute)
  also have "drop (base + length A) d1 = drop (base + length A) d0"
    using fit1 by (simp add: d1)
  also have "drop (length B) (drop (base + length A) d0) = drop (base + (length A + length B)) d0"
    by (simp add: add.commute add.left_commute)
  finally have dr: "drop (base + (length A + length B)) d1 = drop (base + (length A + length B)) d0" .
  show ?thesis
    using fit2 by (simp add: write_block_def d2 t dr)
qed

lemma write_block_Nil: "base \<le> length d \<Longrightarrow> write_block d base [] = Inr d"
  by (simp add: write_block_def)

lemma length_concat_uniform:
  "(\<And>v. v \<in> set vs \<Longrightarrow> length v = g) \<Longrightarrow> length (concat vs) = length vs * g"
  by (induction vs) simp_all

lemma forM_group_writes:
  assumes "forM [0..<n] (\<lambda>gid d. case G gid of Inl e \<Rightarrow> Inl e
                                   | Inr vals \<Rightarrow> write_block d (base + gid * g) vals) d0 = Inr d"
    and "\<And>gid vals. gid < n \<Longrightarrow> G gid = Inr vals \<Longrightarrow> length vals = g"
    and "base \<le> length d0"
  shows "\<exists>vs. length vs = n \<and> (\<forall>gid<n. G gid = Inr (vs ! gid))
           \<and> write_block d0 base (concat vs) = Inr d"
  using assms
proof (induction n arbitrary: d)
  case 0
  then show ?case by (simp add: write_block_Nil)
next
  case (Suc n)
  let ?f = "\<lambda>gid d. case G gid of Inl e \<Rightarrow> Inl e | Inr vals \<Rightarrow> write_block d (base + gid * g) vals"
  from Suc.prems(1) obtain dn vals where dn: "forM [0..<n] ?f d0 = Inr dn"
    and gn: "G n = Inr vals" and w: "write_block dn (base + n * g) vals = Inr d"
    by (auto simp: forM_append split: sum.splits)
  have len: "length vals = g" if "gid < n" "G gid = Inr vals" for gid vals
    using that Suc.prems(2) [of gid vals] by simp
  have "\<exists>vs. length vs = n \<and> (\<forall>gid<n. G gid = Inr (vs ! gid))
           \<and> write_block d0 base (concat vs) = Inr dn"
    by (rule Suc.IH [OF dn _ Suc.prems(3)]) (rule len; assumption)
  then obtain vs where
    vs: "length vs = n" "\<forall>gid<n. G gid = Inr (vs ! gid)" "write_block d0 base (concat vs) = Inr dn"
    by blast
  have "length v = g" if "v \<in> set vs" for v
  proof -
    from that obtain i where "i < length vs" "vs ! i = v" by (auto simp: in_set_conv_nth)
    with vs(1,2) len show ?thesis by auto
  qed
  then have lc: "length (concat vs) = n * g"
    using vs(1) length_concat_uniform [of vs g] by simp
  from w lc have "write_block dn (base + length (concat vs)) vals = Inr d" by simp
  from write_block_append [OF vs(3) this]
  have w2: "write_block d0 base (concat (vs @ [vals])) = Inr d" by simp
  have all: "\<forall>gid<Suc n. G gid = Inr ((vs @ [vals]) ! gid)"
    using vs(1,2) gn by (auto simp: nth_append less_Suc_eq)
  from w2 all vs(1) show ?case
    by (intro exI [of _ "vs @ [vals]"]) simp
qed


lemma forM_project:
  assumes "forM ts F (xi, ai) = Inr (xf, af)" and "I xi ai"
    and step: "\<And>t x a y a'. t \<in> set ts \<Longrightarrow> I x a \<Longrightarrow> F t (x, a) = Inr (y, a') \<Longrightarrow>
             I y a' \<and> Q t \<and> (\<exists>vals. g t = Inr vals \<and> write_block x (pos t) vals = Inr y)"
  shows "forM ts (\<lambda>t out. case g t of Inl e \<Rightarrow> Inl e | Inr vals \<Rightarrow> write_block out (pos t) vals) xi
           = Inr xf \<and> I xf af \<and> (\<forall>t\<in>set ts. Q t)"
  using assms
proof (induction ts arbitrary: xi ai)
  case Nil
  then show ?case by simp
next
  case (Cons t ts)
  from Cons.prems(1) obtain y a' where f: "F t (xi, ai) = Inr (y, a')"
    and r: "forM ts F (y, a') = Inr (xf, af)"
    by (auto split: sum.splits)
  have "I y a' \<and> Q t \<and> (\<exists>vals. g t = Inr vals \<and> write_block xi (pos t) vals = Inr y)"
    by (rule Cons.prems(3) [OF _ Cons.prems(2) f]) simp
  then obtain vals where i: "I y a'" and q: "Q t" and g: "g t = Inr vals"
    and w: "write_block xi (pos t) vals = Inr y"
    by blast
  have "forM ts (\<lambda>t out. case g t of Inl e \<Rightarrow> Inl e | Inr vals \<Rightarrow> write_block out (pos t) vals) y
           = Inr xf \<and> I xf af \<and> (\<forall>t\<in>set ts. Q t)"
  proof (rule Cons.IH [OF r i])
    fix t' x a y' a''
    assume "t' \<in> set ts" "I x a" "F t' (x, a) = Inr (y', a'')"
    then show "I y' a'' \<and> Q t' \<and> (\<exists>vals. g t' = Inr vals \<and> write_block x (pos t') vals = Inr y')"
      using Cons.prems(3) [of t' x a y' a''] by simp
  qed
  with g w q show ?case by simp
qed

lemma ptr_off4:
  "m_strides t = [s0, s1, s2, 1] \<Longrightarrow> ptr_off t [m, b, h, x] = ptr_off t [m, b, h] + x"
  by (simp add: ptr_off_def)

lemma quant_groups_step:
  assumes run: "forM [0..<n]
        (\<lambda>group_id (dst1, params1).
           attn_quant_u8 k floats (group_id * gs) dst1 (base + group_id * gs) gs params1
             (so group_id) (zo group_id))
        (dst, params) = Inr (dst', params')"
    and base: "base \<le> length dst"
  shows "write_block dst base
           (concat (map (\<lambda>group_id. quant_chunk k (take gs (drop (group_id * gs) floats))) [0..<n]))
         = Inr dst'"
proof -
  define G where "G = (\<lambda>gid. case read_block floats (gid * gs) gs of
                                Inl e \<Rightarrow> (Inl e :: error + 'a list)
                              | Inr xs \<Rightarrow> Inr (quant_chunk k xs))"
  have "forM [0..<n] (\<lambda>gid d. case G gid of Inl e \<Rightarrow> Inl e | Inr vals \<Rightarrow> write_block d (base + gid * gs) vals)
          dst = Inr dst' \<and> True \<and> (\<forall>t\<in>set [0..<n]. True)"
  proof (rule forM_project [where I = "\<lambda>x a. True" and Q = "\<lambda>t. True" and ai = params and af = params',
          OF _ TrueI])
    show "forM [0..<n]
        (\<lambda>group_id (dst1, params1).
           attn_quant_u8 k floats (group_id * gs) dst1 (base + group_id * gs) gs params1
             (so group_id) (zo group_id))
        (dst, params) = Inr (dst', params')"
      by (rule run)
  next
    fix t x a y a'
    assume "(case (x, a) of (dst1, params1) \<Rightarrow>
               attn_quant_u8 k floats (t * gs) dst1 (base + t * gs) gs params1 (so t) (zo t))
            = Inr (y, a')"
    then show "True \<and> True \<and> (\<exists>vals. G t = Inr vals \<and> write_block x (base + t * gs) vals = Inr y)"
      by (auto simp: attn_quant_u8_def G_def quant_chunk_def Let_def split: sum.splits)
  qed
  then have fm: "forM [0..<n]
      (\<lambda>gid d. case G gid of Inl e \<Rightarrow> Inl e | Inr vals \<Rightarrow> write_block d (base + gid * gs) vals)
      dst = Inr dst'"
    by simp
  have glen: "length vals = gs" if "G gid = Inr vals" for gid vals
    using that by (auto simp: G_def quant_chunk_def split: sum.splits dest: read_block_Inr)
  have "\<exists>vs. length vs = n \<and> (\<forall>gid<n. G gid = Inr (vs ! gid))
           \<and> write_block dst base (concat vs) = Inr dst'"
    by (rule forM_group_writes [OF fm _ base]) (rule glen)
  then obtain vs where vs: "length vs = n" "\<forall>gid<n. G gid = Inr (vs ! gid)"
    "write_block dst base (concat vs) = Inr dst'"
    by blast
  have "vs = map (\<lambda>group_id. quant_chunk k (take gs (drop (group_id * gs) floats))) [0..<n]"
  proof (rule nth_equalityI)
    show "length vs = length (map (\<lambda>group_id. quant_chunk k (take gs (drop (group_id * gs) floats))) [0..<n])"
      using vs(1) by simp
    fix i assume "i < length vs"
    then have i: "i < n" using vs(1) by simp
    with vs(2) have "G i = Inr (vs ! i)" by simp
    then have "vs ! i = quant_chunk k (take gs (drop (i * gs) floats))"
      by (auto simp: G_def split: sum.splits dest: read_block_Inr)
    with i show "vs ! i = map (\<lambda>group_id. quant_chunk k (take gs (drop (group_id * gs) floats))) [0..<n] ! i"
      by simp
  qed
  with vs(3) show ?thesis by simp
qed

lemma dense_strides4: "dense_strides [L0, B, H, S] = [B * (H * S), H * S, S, 1]"
  by simp

lemma dense_row_elem:
  assumes st: "m_strides t = dense_strides [L0, B, H, S]"
  shows "ptr_off t [m, b, h] + i = sum_list (map2 (*) [m, b, h, i] (dense_strides [L0, B, H, S]))"
  using st by (simp add: ptr_off_def)

lemma dense_rows_disjoint:
  assumes st: "m_strides t = dense_strides [L0, B, H, S]"
    and a: "m < L0" "b < B" "h < H" "i < S"
    and a': "m' < L0" "b' < B" "h' < H" "j < S"
    and eq: "ptr_off t [m, b, h] + i = ptr_off t [m', b', h'] + j"
  shows "m = m' \<and> b = b' \<and> h = h' \<and> i = j"
proof -
  have v: "list_all2 (<) [m, b, h, i] [L0, B, H, S]" using a by simp
  have v': "list_all2 (<) [m', b', h', j] [L0, B, H, S]" using a' by simp
  from eq have "sum_list (map2 (*) [m, b, h, i] (dense_strides [L0, B, H, S]))
              = sum_list (map2 (*) [m', b', h', j] (dense_strides [L0, B, H, S]))"
    unfolding dense_row_elem [OF st, symmetric] .
  from lin_dense_inj [OF v v' this] show ?thesis by simp
qed

lemma dense_row_bound:
  assumes st: "m_strides t = dense_strides [L0, B, H, S]"
    and a: "m < L0" "b < B" "h < H" "i < S"
  shows "ptr_off t [m, b, h] + i < L0 * B * H * S"
proof -
  have v: "list_all2 (<) [m, b, h, i] [L0, B, H, S]" using a by simp
  from lin_dense_bound [OF v] show ?thesis
    unfolding dense_row_elem [OF st, symmetric] by (simp add: mult.assoc)
qed

lemma dense_row_fits:
  assumes st: "m_strides t = dense_strides [L0, B, H, S]"
    and a: "m < L0" "b < B" "h < H"
  shows "ptr_off t [m, b, h] + S \<le> L0 * B * H * S"
proof (cases "S = 0")
  case True
  with st show ?thesis by (simp add: ptr_off_def)
next
  case False
  then have "S - 1 < S" by simp
  from dense_row_bound [OF st a this] False show ?thesis by simp
qed

lemma length_quant_chunk [simp]: "length (quant_chunk k xs) = length xs"
  by (simp add: quant_chunk_def)

lemma group_fits: "gid < S div gs \<Longrightarrow> gid * gs + gs \<le> (S::nat)"
proof -
  assume "gid < S div gs"
  then have "Suc gid \<le> S div gs" by simp
  then have "Suc gid * gs \<le> (S div gs) * gs" by (rule mult_le_mono1)
  also have "\<dots> \<le> S" by simp
  finally show ?thesis by (simp add: add.commute)
qed

lemma length_quant_row_by_group:
  "length (quant_row_by_group k gs floats) = (length floats div gs) * gs"
proof -
  have "length (quant_row_by_group k gs floats)
      = length [0..<length floats div gs] * gs"
    unfolding quant_row_by_group_def
  proof (subst length_concat_uniform [where g = gs])
    fix v
    assume "v \<in> set (map (\<lambda>group_id. quant_chunk k (take gs (drop (group_id * gs) floats)))
                      [0..<length floats div gs])"
    then obtain gid where gid: "gid < length floats div gs"
      and v: "v = quant_chunk k (take gs (drop (gid * gs) floats))"
      by auto
    from group_fits [OF gid] show "length v = gs" by (simp add: v)
  qed simp
  then show ?thesis by simp
qed

lemma take_drop_append_chunk:
  "off + n \<le> length A \<Longrightarrow> take n (drop off (A @ B)) = take n (drop off A)"
  by simp


lemma PlainTensor_resize_ptr:
  "length (m_ptr (PlainTensor_resize k buf [S] dt)) \<ge> S"
  by (simp add: PlainTensor_resize_def)

lemma set_state_by_group_step:
  assumes f: "(let buffer1 = PlainTensor_resize k buffer [S] element_f32
                in (case cpu_convert k (m_ptr external) (ptr_off external [m, b, h])
                                 (m_ptr buffer1) 0 (m_dt external) element_f32 S of
                      Inl e \<Rightarrow> Inl e
                    | Inr floats \<Rightarrow>
                        (case forM [0..<S div gs]
                                (\<lambda>group_id (dst1, params1).
                                   attn_quant_u8 k floats (group_id * gs)
                                     dst1 (ptr_off internal [m, b, h, group_id * gs])
                                     gs params1
                                     (ptr_off scale_zp [m, b, h, group_id * 2])
                                     (ptr_off scale_zp [m, b, h, group_id * 2 + 1]))
                                (dst, params) of
                           Inl e \<Rightarrow> Inl e
                         | Inr (dst', params') \<Rightarrow>
                             Inr (dst', params', buffer1\<lparr>m_ptr := floats\<rparr>))))
              = Inr (y, a')"
    and st: "m_strides internal = dense_strides [L0, B, H, S]"
    and len: "length dst = L0 * B * H * S"
    and mbh: "m < L0" "b < B" "h < H"
  shows "length y = L0 * B * H * S
         \<and> (\<exists>xs. read_block (m_ptr external) (ptr_off external [m, b, h]) S = Inr xs
                \<and> write_block dst (ptr_off internal [m, b, h])
                     (quant_row_by_group k gs (map (convert_elem k (m_dt external) element_f32) xs))
                   = Inr y)"
proof -
  let ?buf = "m_ptr (PlainTensor_resize k buffer [S] element_f32)"
  let ?cv = "convert_elem k (m_dt external) element_f32"
  from f obtain floats params' where
    cv: "cpu_convert k (m_ptr external) (ptr_off external [m, b, h]) ?buf 0 (m_dt external)
           element_f32 S = Inr floats"
    and q: "forM [0..<S div gs]
                (\<lambda>group_id (dst1, params1).
                   attn_quant_u8 k floats (group_id * gs)
                     dst1 (ptr_off internal [m, b, h, group_id * gs]) gs params1
                     (ptr_off scale_zp [m, b, h, group_id * 2])
                     (ptr_off scale_zp [m, b, h, group_id * 2 + 1]))
                (dst, params) = Inr (y, params')"
    by (auto simp: Let_def split: sum.splits prod.splits)
  from cv obtain xs where rd: "read_block (m_ptr external) (ptr_off external [m, b, h]) S = Inr xs"
    and wr: "write_block ?buf 0 (map ?cv xs) = Inr floats"
    by (auto simp: cpu_convert_def split: sum.splits)
  from read_block_Inr [OF rd] have lxs: "length xs = S" by blast
  from wr lxs have floats: "floats = map ?cv xs @ drop S ?buf"
    by (auto simp: write_block_def split: if_splits)
  have off: "ptr_off internal [m, b, h, x] = ptr_off internal [m, b, h] + x" for x
    using st by (simp add: ptr_off_def)
  from dense_row_fits [OF st mbh] len have base: "ptr_off internal [m, b, h] \<le> length dst"
    by simp
  from q have q': "forM [0..<S div gs]
        (\<lambda>group_id (dst1, params1).
           attn_quant_u8 k floats (group_id * gs) dst1 (ptr_off internal [m, b, h] + group_id * gs)
             gs params1 (ptr_off scale_zp [m, b, h, group_id * 2])
             (ptr_off scale_zp [m, b, h, group_id * 2 + 1]))
        (dst, params) = Inr (y, params')"
    by (simp add: off)
  from quant_groups_step [OF q' base]
  have w: "write_block dst (ptr_off internal [m, b, h])
           (concat (map (\<lambda>group_id. quant_chunk k (take gs (drop (group_id * gs) floats)))
                      [0..<S div gs])) = Inr y" .
  have "map (\<lambda>group_id. quant_chunk k (take gs (drop (group_id * gs) floats))) [0..<S div gs]
      = map (\<lambda>group_id. quant_chunk k (take gs (drop (group_id * gs) (map ?cv xs)))) [0..<S div gs]"
  proof (rule map_cong [OF refl])
    fix gid assume "gid \<in> set [0..<S div gs]"
    then have "gid < S div gs" by simp
    from group_fits [OF this] lxs
    have "take gs (drop (gid * gs) floats) = take gs (drop (gid * gs) (map ?cv xs))"
      unfolding floats by (intro take_drop_append_chunk) simp
    then show "quant_chunk k (take gs (drop (gid * gs) floats))
             = quant_chunk k (take gs (drop (gid * gs) (map ?cv xs)))"
      by simp
  qed
  with w lxs have w2: "write_block dst (ptr_off internal [m, b, h])
                     (quant_row_by_group k gs (map ?cv xs)) = Inr y"
    by (simp add: quant_row_by_group_def)
  from write_block_Inr [OF w2] len have "length y = L0 * B * H * S" by simp
  with rd w2 show ?thesis by blast
qed


lemma lt_lead: "i < (S div gs) * gs \<Longrightarrow> i < (S::nat)"
  by (rule less_le_trans [OF _ div_times_less_eq_dividend])

lemma set_triples_swap: "(b, h, m) \<in> set (triples B H L0) \<longleftrightarrow> m < L0 \<and> b < B \<and> h < H"
  by (auto simp: set_triples)

lemma set_state_by_group_rows:
  assumes run: "set_state_by_group k gs scale_zp0 external internal L0 B H S = Inr (dst, szp)"
    and st: "m_strides internal = dense_strides [L0, B, H, S]"
    and init: "m_ptr internal = replicate (L0 * B * H * S) (uninit k)"
    and mbh: "m < L0" "b < B" "h < H"
  shows "\<exists>xs. read_block (m_ptr external) (ptr_off external [m, b, h]) S = Inr xs
           \<and> read_block dst (ptr_off internal [m, b, h]) S
               = Inr (quant_row_by_group k gs (map (convert_elem k (m_dt external) element_f32) xs)
                      @ replicate (S mod gs) (uninit k))"
proof -
  let ?N = "L0 * B * H * S"
  let ?cv = "convert_elem k (m_dt external) element_f32"
  define scale_zp where "scale_zp = PlainTensor_resize k scale_zp0 [L0, B, H, 2 * S div gs] element_f32"
  define F where "F = (\<lambda>(b, h, m) (dst, params, buffer).
                      let buffer1 = PlainTensor_resize k buffer [S] element_f32
                      in (case cpu_convert k (m_ptr external) (ptr_off external [m, b, h])
                                 (m_ptr buffer1) 0 (m_dt external) element_f32 S of
                            Inl e \<Rightarrow> Inl e
                          | Inr floats \<Rightarrow>
                              (case forM [0..<S div gs]
                                      (\<lambda>group_id (dst1, params1).
                                         attn_quant_u8 k floats (group_id * gs)
                                           dst1 (ptr_off internal [m, b, h, group_id * gs])
                                           gs params1
                                           (ptr_off scale_zp [m, b, h, group_id * 2])
                                           (ptr_off scale_zp [m, b, h, group_id * 2 + 1]))
                                      (dst, params) of
                                 Inl e \<Rightarrow> Inl e
                               | Inr (dst', params') \<Rightarrow>
                                   (Inr (dst', params', buffer1\<lparr>m_ptr := floats\<rparr>)
                                     :: error + 'a list \<times> 'a list \<times> 'a PlainTensor))))"
  define g where "g = (\<lambda>(b, h, m).
      case read_block (m_ptr external) (ptr_off external [m, b, h]) S of
        Inl e \<Rightarrow> (Inl e :: error + 'a list)
      | Inr xs \<Rightarrow> Inr (quant_row_by_group k gs (map ?cv xs)))"
  define pos where "pos = (\<lambda>(b :: nat, h :: nat, m :: nat). ptr_off internal [m, b, h])"
  have unf: "set_state_by_group k gs scale_zp0 external internal L0 B H S
      = (if gs = 0 then Inl DivisionByZero
         else case forM (triples B H L0) F (m_ptr internal, m_ptr scale_zp, PlainTensor_empty) of
                Inl e \<Rightarrow> Inl e
              | Inr (dst, params, buffer) \<Rightarrow> Inr (dst, scale_zp\<lparr>m_ptr := params\<rparr>))"
    unfolding set_state_by_group_def parallel_for3d_def F_def scale_zp_def Let_def
    by (rule refl)
  from run obtain params buffer where
    fm: "forM (triples B H L0) F (m_ptr internal, m_ptr scale_zp, PlainTensor_empty)
           = Inr (dst, params, buffer)"
    unfolding unf by (auto split: if_splits sum.splits prod.splits)
  have proj: "forM (triples B H L0)
                (\<lambda>t out. case g t of Inl e \<Rightarrow> Inl e | Inr vals \<Rightarrow> write_block out (pos t) vals)
                (m_ptr internal) = Inr dst
              \<and> length dst = ?N \<and> (\<forall>t\<in>set (triples B H L0). True)"
  proof (rule forM_project [where I = "\<lambda>x a. length x = ?N" and Q = "\<lambda>t. True"
           and F = F and ai = "(m_ptr scale_zp, PlainTensor_empty)" and af = "(params, buffer)"])
    show "forM (triples B H L0) F (m_ptr internal, m_ptr scale_zp, PlainTensor_empty)
           = Inr (dst, params, buffer)"
      by (rule fm)
    show "length (m_ptr internal) = ?N" by (simp add: init)
  next
    fix t x a y a'
    assume t: "t \<in> set (triples B H L0)" and lx: "length x = ?N" and f: "F t (x, a) = Inr (y, a')"
    obtain b1 h1 m1 where t1: "t = (b1, h1, m1)" by (cases t) auto
    obtain p1 buf1 where a1: "a = (p1, buf1)" by (cases a) auto
    from t t1 have v: "m1 < L0" "b1 < B" "h1 < H" by (simp_all add: set_triples_swap)
    from f have f': "(let buffer1 = PlainTensor_resize k buf1 [S] element_f32
                in (case cpu_convert k (m_ptr external) (ptr_off external [m1, b1, h1])
                                 (m_ptr buffer1) 0 (m_dt external) element_f32 S of
                      Inl e \<Rightarrow> Inl e
                    | Inr floats \<Rightarrow>
                        (case forM [0..<S div gs]
                                (\<lambda>group_id (dst1, params1).
                                   attn_quant_u8 k floats (group_id * gs)
                                     dst1 (ptr_off internal [m1, b1, h1, group_id * gs])
                                     gs params1
                                     (ptr_off scale_zp [m1, b1, h1, group_id * 2])
                                     (ptr_off scale_zp [m1, b1, h1, group_id * 2 + 1]))
                                (x, p1) of
                           Inl e \<Rightarrow> Inl e
                         | Inr (dst', params') \<Rightarrow>
                             Inr (dst', params', buffer1\<lparr>m_ptr := floats\<rparr>))))
              = Inr (y, a')"
      unfolding F_def t1 a1 by (simp only: prod.case)
    from set_state_by_group_step [OF f' st lx v]
    show "length y = ?N \<and> True \<and> (\<exists>vals. g t = Inr vals \<and> write_block x (pos t) vals = Inr y)"
      by (auto simp: g_def pos_def t1)
  qed
  then have fm2: "forM (triples B H L0)
                (\<lambda>t out. case g t of Inl e \<Rightarrow> Inl e | Inr vals \<Rightarrow> write_block out (pos t) vals)
                (m_ptr internal) = Inr dst"
    and ldst: "length dst = ?N" by simp_all
  have glen: "length v = (S div gs) * gs" if "g t = Inr v" for t v
    using that
    by (auto simp: g_def length_quant_row_by_group split: prod.splits sum.splits dest: read_block_Inr)
  have lead: "(S div gs) * gs \<le> S" by simp
  have disj: "pos x + i \<noteq> pos y + j"
    if "x \<in> set (triples B H L0)" "y \<in> set (triples B H L0)" "x \<noteq> y"
       "g x = Inr va" "g y = Inr vb" "i < length va" "j < length vb" for x y va vb i j
  proof
    assume e: "pos x + i = pos y + j"
    obtain b1 h1 m1 where x: "x = (b1, h1, m1)" by (cases x) auto
    obtain b2 h2 m2 where y: "y = (b2, h2, m2)" by (cases y) auto
    from that(6) glen [OF that(4)] have iS: "i < S" by (intro lt_lead [of i S gs]) simp
    from that(7) glen [OF that(5)] have jS: "j < S" by (intro lt_lead [of j S gs]) simp
    from that(1,2) x y iS jS
    have "m1 < L0" "b1 < B" "h1 < H" "i < S" "m2 < L0" "b2 < B" "h2 < H" "j < S"
      by (simp_all add: set_triples_swap)
    from dense_rows_disjoint [OF st this] e x y that(3)
    show False by (simp add: pos_def)
  qed
  have mem: "(b, h, m) \<in> set (triples B H L0)" using mbh by (simp add: set_triples_swap)
  have "\<exists>vals. g (b, h, m) = Inr vals \<and> pos (b, h, m) + length vals \<le> length dst
               \<and> take (length vals) (drop (pos (b, h, m)) dst) = vals"
    by (rule forM_write_rows_nth [OF fm2 distinct_triples mem]) (rule disj; assumption)
  then obtain vals where gv: "g (b, h, m) = Inr vals"
    and tk: "take (length vals) (drop (pos (b, h, m)) dst) = vals"
    by blast
  from gv obtain xs where rd: "read_block (m_ptr external) (ptr_off external [m, b, h]) S = Inr xs"
    and vals: "vals = quant_row_by_group k gs (map ?cv xs)"
    by (auto simp: g_def split: sum.splits)
  have lv: "length vals = (S div gs) * gs" using glen [OF gv] .
  let ?base = "ptr_off internal [m, b, h]"
  have fit: "?base + S \<le> length dst"
    using dense_row_fits [OF st mbh] ldst by simp
  from forM_write_rows_frame [OF fm2] have
    fr: "\<And>p. p < length (m_ptr internal) \<Longrightarrow>
          (\<forall>t\<in>set (triples B H L0). \<forall>v. g t = Inr v \<longrightarrow> \<not> (pos t \<le> p \<and> p < pos t + length v))
          \<Longrightarrow> dst ! p = m_ptr internal ! p"
    by blast
  have tail: "dst ! (?base + i) = uninit k" if i: "(S div gs) * gs \<le> i" "i < S" for i
  proof -
    have inb: "?base + i < ?N" using dense_row_bound [OF st mbh i(2)] .
    have untouched: "\<forall>t\<in>set (triples B H L0). \<forall>v. g t = Inr v
                       \<longrightarrow> \<not> (pos t \<le> ?base + i \<and> ?base + i < pos t + length v)"
    proof (intro ballI allI impI notI)
      fix t v assume t: "t \<in> set (triples B H L0)" and gt: "g t = Inr v"
        and inr: "pos t \<le> ?base + i \<and> ?base + i < pos t + length v"
      obtain b1 h1 m1 where t1: "t = (b1, h1, m1)" by (cases t) auto
      from t t1 have v1: "m1 < L0" "b1 < B" "h1 < H" by (simp_all add: set_triples_swap)
      define j where "j = ?base + i - pos t"
      from inr glen [OF gt] have "pos t \<le> ?base + i" and "?base + i < pos t + (S div gs) * gs"
        by simp_all
      then have j1: "j < (S div gs) * gs" and j3: "?base + i = pos t + j"
        unfolding j_def by linarith+
      from j1 have j2: "j < S" by (rule lt_lead)
      note j = j1 j2 j3
      from dense_rows_disjoint [OF st mbh i(2) v1 j(2)] j(3)
      have "i = j" by (simp add: pos_def t1)
      with j(1) i(1) show False by simp
    qed
    from fr [OF _ untouched] inb show ?thesis by (simp add: init)
  qed
  have "take S (drop ?base dst) = vals @ replicate (S mod gs) (uninit k)"
  proof (rule nth_equalityI)
    have "(S div gs) * gs + S mod gs = S" by simp
    then show "length (take S (drop ?base dst)) = length (vals @ replicate (S mod gs) (uninit k))"
      using fit lv by simp
    fix i assume "i < length (take S (drop ?base dst))"
    then have i: "i < S" by simp
    show "take S (drop ?base dst) ! i = (vals @ replicate (S mod gs) (uninit k)) ! i"
    proof (cases "i < (S div gs) * gs")
      case True
      from tk have "vals ! i = take (length vals) (drop ?base dst) ! i" by (simp add: pos_def)
      also have "\<dots> = dst ! (?base + i)" using True lv fit i by simp
      finally show ?thesis using True lv fit i by (simp add: nth_append)
    next
      case False
      then have ge: "(S div gs) * gs \<le> i" by simp
      have "(S div gs) * gs + S mod gs = S" by simp
      with ge i have "i - (S div gs) * gs < S mod gs" by linarith
      with tail [OF ge i] False lv fit i show ?thesis
        by (simp add: nth_append)
    qed
  qed
  with fit have "read_block dst ?base S = Inr (vals @ replicate (S mod gs) (uninit k))"
    by (simp add: read_block_def)
  with rd vals show ?thesis by blast
qed

lemma is_perm_prod_list:
  fixes F :: "nat \<Rightarrow> nat"
  assumes "is_perm n ord"
  shows "prod_list (map F ord) = prod_list (map F [0..<n])"
proof -
  have "prod_list (map F ord) = prod_mset (image_mset F (mset ord))"
    by (metis mset_map prod_mset_prod_list)
  also have "\<dots> = prod_mset (image_mset F (mset [0..<n]))"
    using assms by (simp add: is_perm_mset)
  also have "\<dots> = prod_list (map F [0..<n])"
    by (metis mset_map prod_mset_prod_list)
  finally show ?thesis .
qed

lemma is_perm_prod_dims:
  fixes ds :: "nat list"
  assumes "is_perm n ord" "length ds = n"
  shows "prod_list (map (\<lambda>j. ds ! j) ord) = prod_list ds"
proof -
  have "map (\<lambda>j. ds ! j) [0..<n] = ds"
    using assms(2) map_nth [of ds] by simp
  with is_perm_prod_list [OF assms(1), of "\<lambda>j. ds ! j"] show ?thesis by simp
qed

lemma map_logical_strides_perm:
  assumes "is_perm n ord" "length st = n"
  shows "map (\<lambda>j. logical_strides ord st ! j) ord = st"
proof (rule nth_equalityI)
  show "length (map (\<lambda>j. logical_strides ord st ! j) ord) = length st"
    using assms by (simp add: is_perm_length)
  fix i assume "i < length (map (\<lambda>j. logical_strides ord st ! j) ord)"
  then have "i < n" using assms by (simp add: is_perm_length)
  with assms show "map (\<lambda>j. logical_strides ord st ! j) ord ! i = st ! i"
    by (simp add: is_perm_length logical_strides_nth)
qed

lemma set_state_quant_InrD:
  assumes "set_state_quant k s state internal_mem0 = Inr (mem, szp)"
  shows "\<exists>ds internal0 external internal dst.
      getStaticDims (getDesc state) = Inr ds
      \<and> PlainTensor_reset internal_mem0 = Inr internal0
      \<and> permute \<lparr>m_dims = ds, m_strides = dense_strides ds,
                   m_dt = getPrecision (getDesc state), m_ptr = getData state\<rparr>
           (getOrder (m_dense_internal_desc s)) = Inr external
      \<and> permute internal0 (getOrder (m_dense_internal_desc s)) = Inr internal
      \<and> (if m_quant_by_channel s
           then set_state_by_channel k (m_group_size s) (m_scale_zp s) external internal
                  (m_dims internal ! 0) (m_dims internal ! 1) (m_dims internal ! 2) (m_dims internal ! 3)
           else set_state_by_group k (m_group_size s) (m_scale_zp s) external internal
                  (m_dims internal ! 0) (m_dims internal ! 1) (m_dims internal ! 2) (m_dims internal ! 3))
          = Inr (dst, szp)
      \<and> mem = internal_mem0\<lparr>getData := dst\<rparr>"
  using assms
  unfolding set_state_quant_def Let_def
  by (auto split: sum.splits if_splits prod.splits)


lemma set_state_by_group_stored_row:
  assumes run: "set_state_impl_KVcache k state s = Inr s'"
    and prc: "getPrecision (m_dense_internal_desc s) = element_u8"
    and mode: "\<not> m_quant_by_channel s"
    and perm: "is_perm 4 (getOrder (m_dense_internal_desc s))"
    and dims: "blockedDims (getDims (getDesc state)) (getOrder (m_dense_internal_desc s)) = [L0, B, H, S]"
    and mbh: "m < L0" "b < B" "h < H"
  shows "\<exists>mem xs. m_internal_mem s' = Some mem
           \<and> external_row state (getOrder (m_dense_internal_desc s)) m b h = Inr xs
           \<and> tensor_row mem (getOrder (m_dense_internal_desc s)) m b h
               = Inr (quant_row_by_group k (m_group_size s)
                        (map (convert_elem k (getPrecision (getDesc state)) element_f32) xs)
                      @ replicate (S mod m_group_size s) (uninit k))"
proof -
  let ?ord = "getOrder (m_dense_internal_desc s)"
  from run obtain ds where ds: "getStaticDims (getDesc state) = Inr ds"
    by (auto simp: set_state_impl_KVcache_def Let_def split: sum.splits)
  from run ds obtain did where did: "cloneWithNewDims (m_dense_internal_desc s) ds False = Inr did"
    by (auto simp: set_state_impl_KVcache_def Let_def split: sum.splits)
  note didf = cloneWithNewDims_Inr [OF did]
  from getStaticDims_Inr [OF ds] have dsd: "ds = getDims (getDesc state)" by simp
  define mem0 where "mem0 = Memory_new (uninit k) did"
  from run ds did prc didf obtain mem szp where
    q: "set_state_quant k s state mem0 = Inr (mem, szp)" and m': "m_internal_mem s' = Some mem"
    by (auto simp: set_state_impl_KVcache_def Let_def mem0_def split: sum.splits if_splits prod.splits)
  from set_state_quant_InrD [OF q] ds mode obtain internal0 external internal dst where
    i0: "PlainTensor_reset mem0 = Inr internal0"
    and pe: "permute \<lparr>m_dims = ds, m_strides = dense_strides ds,
                   m_dt = getPrecision (getDesc state), m_ptr = getData state\<rparr> ?ord = Inr external"
    and pi: "permute internal0 ?ord = Inr internal"
    and loop: "set_state_by_group k (m_group_size s) (m_scale_zp s) external internal
                  (m_dims internal ! 0) (m_dims internal ! 1) (m_dims internal ! 2) (m_dims internal ! 3)
               = Inr (dst, szp)"
    and mem: "mem = mem0\<lparr>getData := dst\<rparr>"
    by auto
  note i0f = PlainTensor_reset_Inr [OF i0]
  note pif = permute_Inr [OF pi]
  note pef = permute_Inr [OF pe]
  have dm: "map (\<lambda>j. ds ! j) ?ord = [L0, B, H, S]"
    using dims dsd by (simp add: blockedDims_def)
  have l4: "length ds = 4"
    using didf is_perm_length [OF perm] i0f by (simp add: mem0_def Memory_new_def)
  have idims: "m_dims internal = [L0, B, H, S]"
    using pif i0f didf dm by (simp add: mem0_def Memory_new_def)
  have edims: "m_dims external = [L0, B, H, S]"
    using pef dm by simp
  have edt: "m_dt external = getPrecision (getDesc state)" using pef by simp
  have eptr: "m_ptr external = getData state" using pef by simp
  have "m_strides internal
      = map (\<lambda>j. logical_strides ?ord (dense_strides (blockedDims ds ?ord)) ! j) ?ord"
    using pif i0f didf by (simp add: mem0_def Memory_new_def)
  also have "\<dots> = dense_strides (blockedDims ds ?ord)"
    using perm by (rule map_logical_strides_perm) (simp add: blockedDims_def is_perm_length [OF perm])
  finally have ist: "m_strides internal = dense_strides [L0, B, H, S]"
    using dm by (simp add: blockedDims_def)
  have "prod_list ds = prod_list (map (\<lambda>j. ds ! j) ?ord)"
    using is_perm_prod_dims [OF perm l4] by simp
  then have pl: "prod_list ds = L0 * B * H * S"
    by (simp add: dm mult.assoc)
  have iptr: "m_ptr internal = replicate (L0 * B * H * S) (uninit k)"
    using pif i0f didf pl by (simp add: mem0_def Memory_new_def isDefined_def)
  from loop idims have loop': "set_state_by_group k (m_group_size s) (m_scale_zp s) external internal
                  L0 B H S = Inr (dst, szp)"
    by simp
  from set_state_by_group_rows [OF loop' ist iptr mbh] obtain xs where
    rd: "read_block (m_ptr external) (ptr_off external [m, b, h]) S = Inr xs"
    and st: "read_block dst (ptr_off internal [m, b, h]) S
               = Inr (quant_row_by_group k (m_group_size s)
                        (map (convert_elem k (m_dt external) element_f32) xs)
                      @ replicate (S mod m_group_size s) (uninit k))"
    by blast
  have r1: "external_row state ?ord m b h = Inr xs"
    using ds pe rd edims by (simp add: external_row_def)
  have "PlainTensor_reset mem = Inr (internal0\<lparr>m_ptr := dst\<rparr>)"
    unfolding mem using i0 by (rule PlainTensor_reset_data)
  moreover have "permute (internal0\<lparr>m_ptr := dst\<rparr>) ?ord = Inr (internal\<lparr>m_ptr := dst\<rparr>)"
    using pi by (rule permute_data)
  ultimately have r2: "tensor_row mem ?ord m b h
       = Inr (quant_row_by_group k (m_group_size s)
                (map (convert_elem k (getPrecision (getDesc state)) element_f32) xs)
              @ replicate (S mod m_group_size s) (uninit k))"
    using st idims edt by (simp add: tensor_row_def)
  from m' r1 r2 show ?thesis by blast
qed

lemma read_block_two:
  "read_block params off 2 = Inr sz \<Longrightarrow> sz ! 0 = params ! off \<and> sz ! 1 = params ! (off + 1)"
  by (auto simp: read_block_def split: if_splits)

lemma dequant_groups_step:
  assumes run: "forM [0..<n]
        (\<lambda>group_id floats.
           attn_dequant_u8 k src (sbase + group_id * gs) floats (group_id * gs) gs params
             (po group_id))
        fl0 = Inr fl"
  shows "write_block fl0 0
           (concat (map (\<lambda>group_id.
                      map (dequant_elem k (params ! po group_id) (params ! (po group_id + 1)))
                        (take gs (drop (group_id * gs) (drop sbase src))))
                    [0..<n]))
         = Inr fl
       \<and> length (concat (map (\<lambda>group_id.
                      map (dequant_elem k (params ! po group_id) (params ! (po group_id + 1)))
                        (take gs (drop (group_id * gs) (drop sbase src))))
                    [0..<n])) = n * gs"
proof -
  define G where "G = (\<lambda>gid. case read_block src (sbase + gid * gs) gs of
                                Inl e \<Rightarrow> (Inl e :: error + 'a list)
                              | Inr qs \<Rightarrow>
                                  (case read_block params (po gid) 2 of
                                     Inl e \<Rightarrow> Inl e
                                   | Inr sz \<Rightarrow> Inr (map (dequant_elem k (sz ! 0) (sz ! 1)) qs)))"
  have body: "(\<lambda>group_id floats.
           attn_dequant_u8 k src (sbase + group_id * gs) floats (group_id * gs) gs params
             (po group_id))
      = (\<lambda>gid d. case G gid of Inl e \<Rightarrow> Inl e | Inr vals \<Rightarrow> write_block d (0 + gid * gs) vals)"
    by (auto simp: G_def attn_dequant_u8_def fun_eq_iff split: sum.splits)
  from run have fm: "forM [0..<n]
      (\<lambda>gid d. case G gid of Inl e \<Rightarrow> Inl e | Inr vals \<Rightarrow> write_block d (0 + gid * gs) vals)
      fl0 = Inr fl"
    by (simp only: body)
  have glen: "length vals = gs" if "G gid = Inr vals" for gid vals
    using that by (auto simp: G_def split: sum.splits dest: read_block_Inr)
  have "\<exists>vs. length vs = n \<and> (\<forall>gid<n. G gid = Inr (vs ! gid))
           \<and> write_block fl0 0 (concat vs) = Inr fl"
    by (rule forM_group_writes [OF fm]) (rule glen, assumption, simp)
  then obtain vs where vs: "length vs = n" "\<forall>gid<n. G gid = Inr (vs ! gid)"
    "write_block fl0 0 (concat vs) = Inr fl"
    by blast
  have "vs = map (\<lambda>group_id.
                      map (dequant_elem k (params ! po group_id) (params ! (po group_id + 1)))
                        (take gs (drop (group_id * gs) (drop sbase src))))
                    [0..<n]"
  proof (rule nth_equalityI)
    show "length vs = length (map (\<lambda>group_id.
                      map (dequant_elem k (params ! po group_id) (params ! (po group_id + 1)))
                        (take gs (drop (group_id * gs) (drop sbase src))))
                    [0..<n])"
      using vs(1) by simp
    fix i assume "i < length vs"
    then have i: "i < n" using vs(1) by simp
    with vs(2) have "G i = Inr (vs ! i)" by simp
    then obtain qs sz where rq: "read_block src (sbase + i * gs) gs = Inr qs"
      and rs: "read_block params (po i) 2 = Inr sz"
      and v: "vs ! i = map (dequant_elem k (sz ! 0) (sz ! 1)) qs"
      by (auto simp: G_def split: sum.splits)
    from read_block_Inr [OF rq] have "qs = take gs (drop (i * gs) (drop sbase src))"
      by (simp add: add.commute)
    with v read_block_two [OF rs] i
    show "vs ! i = map (\<lambda>group_id.
                      map (dequant_elem k (params ! po group_id) (params ! (po group_id + 1)))
                        (take gs (drop (group_id * gs) (drop sbase src))))
                    [0..<n] ! i"
      by simp
  qed
  moreover have "length (concat vs) = n * gs"
  proof -
    have "length v = gs" if "v \<in> set vs" for v
    proof -
      from that obtain i where "i < length vs" "vs ! i = v" by (auto simp: in_set_conv_nth)
      with vs(1,2) glen show ?thesis by auto
    qed
    then show ?thesis using vs(1) length_concat_uniform [of vs gs] by simp
  qed
  ultimately show ?thesis using vs(3) by simp
qed

lemma ptr_off_row_elem4:
  assumes "length (m_strides t) = 4" "m_strides t ! 3 = 1"
  shows "ptr_off t [m, b, h, x] = ptr_off t [m, b, h] + x"
proof -
  from assms(1) obtain s0 s1 s2 s3 where st: "m_strides t = [s0, s1, s2, s3]"
    by (auto simp: length_Suc_conv numeral_eq_Suc)
  with assms(2) show ?thesis by (simp add: ptr_off_def)
qed

lemma get_state_by_group_step:
  assumes f: "(case beam_table_at beam_table b m of
             Inl e \<Rightarrow> Inl e
           | Inr b_kv \<Rightarrow>
               let buffer1 = PlainTensor_resize k buffer [S] element_f32
               in if gs = 0 then Inl DivisionByZero
                  else
                    (case forM [0..<S div gs]
                            (\<lambda>group_id floats.
                               attn_dequant_u8 k (m_ptr pastkv)
                                 (ptr_off pastkv [m, b_kv, h, group_id * gs])
                                 floats (group_id * gs) gs (m_ptr scale_zp)
                                 (ptr_off scale_zp [m, b_kv, h, group_id * 2]))
                            (m_ptr buffer1) of
                       Inl e \<Rightarrow> Inl e
                     | Inr floats \<Rightarrow>
                         (case cpu_convert k floats 0 out (ptr_off outp [m, b, h])
                                 element_f32 (m_dt outp) S of
                            Inl e \<Rightarrow> Inl e
                          | Inr out' \<Rightarrow> Inr (out', buffer1\<lparr>m_ptr := floats\<rparr>))))
            = Inr (y, buffer')"
    and J: "m_ptr buffer = [] \<or> (length (m_ptr buffer) = S
              \<and> drop ((S div gs) * gs) (m_ptr buffer) = replicate (S mod gs) (uninit k))"
    and pst: "length (m_strides pastkv) = 4" "m_strides pastkv ! 3 = 1"
  shows "(m_ptr buffer' = [] \<or> (length (m_ptr buffer') = S
              \<and> drop ((S div gs) * gs) (m_ptr buffer') = replicate (S mod gs) (uninit k)))
         \<and> (\<exists>b_kv vals. beam_table_at beam_table b m = Inr b_kv
               \<and> vals = map (convert_elem k element_f32 (m_dt outp))
                        (dequant_row_by_group k gs S (m_ptr scale_zp)
                           (\<lambda>group_id. ptr_off scale_zp [m, b_kv, h, group_id * 2])
                           (drop (ptr_off pastkv [m, b_kv, h]) (m_ptr pastkv))
                         @ replicate (S mod gs) (uninit k))
               \<and> length vals = S
               \<and> write_block out (ptr_off outp [m, b, h]) vals = Inr y)"
proof -
  let ?fl0 = "m_ptr (PlainTensor_resize k buffer [S] element_f32)"
  let ?lead = "(S div gs) * gs"
  from f obtain b_kv floats where bk: "beam_table_at beam_table b m = Inr b_kv"
    and inner: "forM [0..<S div gs]
                  (\<lambda>group_id floats.
                     attn_dequant_u8 k (m_ptr pastkv)
                       (ptr_off pastkv [m, b_kv, h, group_id * gs])
                       floats (group_id * gs) gs (m_ptr scale_zp)
                       (ptr_off scale_zp [m, b_kv, h, group_id * 2]))
                  ?fl0 = Inr floats"
    and cv: "cpu_convert k floats 0 out (ptr_off outp [m, b, h]) element_f32 (m_dt outp) S = Inr y"
    and b': "buffer' = (PlainTensor_resize k buffer [S] element_f32)\<lparr>m_ptr := floats\<rparr>"
    by (auto simp: Let_def split: sum.splits if_splits)
  have ls: "?lead + S mod gs = S" by simp
  have fl0: "length ?fl0 = S \<and> drop ?lead ?fl0 = replicate (S mod gs) (uninit k)"
  proof (cases "m_ptr buffer = []")
    case True
    have "S - ?lead = S mod gs" using ls by linarith
    with True show ?thesis by (cases "S = 0") (simp_all add: PlainTensor_resize_def)
  next
    case False
    with J show ?thesis by (simp add: PlainTensor_resize_def)
  qed
  let ?D = "concat (map (\<lambda>group_id.
                      map (dequant_elem k (m_ptr scale_zp ! ptr_off scale_zp [m, b_kv, h, group_id * 2])
                             (m_ptr scale_zp ! (ptr_off scale_zp [m, b_kv, h, group_id * 2] + 1)))
                        (take gs (drop (group_id * gs) (drop (ptr_off pastkv [m, b_kv, h]) (m_ptr pastkv)))))
                    [0..<S div gs])"
  from inner have inner': "forM [0..<S div gs]
                  (\<lambda>group_id floats.
                     attn_dequant_u8 k (m_ptr pastkv)
                       (ptr_off pastkv [m, b_kv, h] + group_id * gs)
                       floats (group_id * gs) gs (m_ptr scale_zp)
                       (ptr_off scale_zp [m, b_kv, h, group_id * 2]))
                  ?fl0 = Inr floats"
    by (simp add: ptr_off_row_elem4 [OF pst])
  from dequant_groups_step [OF inner'] have w: "write_block ?fl0 0 ?D = Inr floats"
    and lD: "length ?D = ?lead" by simp_all
  from w lD fl0 have floats: "floats = ?D @ replicate (S mod gs) (uninit k)"
    by (auto simp: write_block_def split: if_splits)
  with lD ls have lf: "length floats = S" by simp
  from cv lf have wr: "write_block out (ptr_off outp [m, b, h])
                         (map (convert_elem k element_f32 (m_dt outp)) floats) = Inr y"
    by (auto simp: cpu_convert_def read_block_def split: sum.splits if_splits)
  have J': "length (m_ptr buffer') = S
              \<and> drop ?lead (m_ptr buffer') = replicate (S mod gs) (uninit k)"
    using b' lf floats lD by simp
  have D: "?D = dequant_row_by_group k gs S (m_ptr scale_zp)
                           (\<lambda>group_id. ptr_off scale_zp [m, b_kv, h, group_id * 2])
                           (drop (ptr_off pastkv [m, b_kv, h]) (m_ptr pastkv))"
    by (simp add: dequant_row_by_group_def)
  from J' bk wr lf floats D show ?thesis by auto
qed


lemma get_state_by_group_row:
  assumes run: "get_state_by_group k gs scale_zp pastkv beam_table outp L0 B H S = Inr outdata"
    and oe: "is_perm 4 oe" and oi: "is_perm 4 oi" and len: "length ds = 4"
    and st: "m_strides outp = map (\<lambda>j. logical_strides oe (dense_strides (blockedDims ds oe)) ! j) oi"
    and dims: "map (\<lambda>j. ds ! j) oi = [L0, B, H, S]"
    and one: "m_strides outp ! 3 = 1"
    and pst: "length (m_strides pastkv) = 4" "m_strides pastkv ! 3 = 1"
    and mbh: "m < L0" "b < B" "h < H"
  shows "\<exists>b_kv. beam_table_at beam_table b m = Inr b_kv
           \<and> read_block outdata (ptr_off outp [m, b, h]) S
               = Inr (map (convert_elem k element_f32 (m_dt outp))
                        (dequant_row_by_group k gs S (m_ptr scale_zp)
                           (\<lambda>group_id. ptr_off scale_zp [m, b_kv, h, group_id * 2])
                           (drop (ptr_off pastkv [m, b_kv, h]) (m_ptr pastkv))
                         @ replicate (S mod gs) (uninit k)))"
proof -
  define F where "F = (\<lambda>(m, b, h) (out, buffer).
           case beam_table_at beam_table b m of
             Inl e \<Rightarrow> Inl e
           | Inr b_kv \<Rightarrow>
               let buffer1 = PlainTensor_resize k buffer [S] element_f32
               in if gs = 0 then Inl DivisionByZero
                  else
                    (case forM [0..<S div gs]
                            (\<lambda>group_id floats.
                               attn_dequant_u8 k (m_ptr pastkv)
                                 (ptr_off pastkv [m, b_kv, h, group_id * gs])
                                 floats (group_id * gs) gs (m_ptr scale_zp)
                                 (ptr_off scale_zp [m, b_kv, h, group_id * 2]))
                            (m_ptr buffer1) of
                       Inl e \<Rightarrow> Inl e
                     | Inr floats \<Rightarrow>
                         (case cpu_convert k floats 0 out (ptr_off outp [m, b, h])
                                 element_f32 (m_dt outp) S of
                            Inl e \<Rightarrow> Inl e
                          | Inr out' \<Rightarrow>
                              (Inr (out', buffer1\<lparr>m_ptr := floats\<rparr>)
                                :: error + 'a list \<times> 'a PlainTensor))))"
  define g where "g = (\<lambda>(m, b, h).
      case beam_table_at beam_table b m of
        Inl e \<Rightarrow> (Inl e :: error + 'a list)
      | Inr b_kv \<Rightarrow>
          Inr (map (convert_elem k element_f32 (m_dt outp))
                 (dequant_row_by_group k gs S (m_ptr scale_zp)
                    (\<lambda>group_id. ptr_off scale_zp [m, b_kv, h, group_id * 2])
                    (drop (ptr_off pastkv [m, b_kv, h]) (m_ptr pastkv))
                  @ replicate (S mod gs) (uninit k))))"
  define pos where "pos = (\<lambda>(m :: nat, b :: nat, h :: nat). ptr_off outp [m, b, h])"
  define J where "J = (\<lambda>(x :: 'a list) (buffer :: 'a PlainTensor).
      m_ptr buffer = [] \<or> (length (m_ptr buffer) = S
         \<and> drop ((S div gs) * gs) (m_ptr buffer) = replicate (S mod gs) (uninit k)))"
  define Q where "Q = (\<lambda>t. \<exists>vals. g t = Inr vals \<and> length vals = S)"
  have unf: "get_state_by_group k gs scale_zp pastkv beam_table outp L0 B H S
      = (case forM (triples L0 B H) F (m_ptr outp, PlainTensor_empty) of
           Inl e \<Rightarrow> Inl e
         | Inr (out, buffer) \<Rightarrow> Inr out)"
    unfolding get_state_by_group_def parallel_for3d_def F_def Let_def
    by (rule refl)
  from run obtain buffer where
    fm: "forM (triples L0 B H) F (m_ptr outp, PlainTensor_empty) = Inr (outdata, buffer)"
    unfolding unf by (auto split: sum.splits prod.splits)
  have proj: "forM (triples L0 B H)
                (\<lambda>t out. case g t of Inl e \<Rightarrow> Inl e | Inr vals \<Rightarrow> write_block out (pos t) vals)
                (m_ptr outp) = Inr outdata
              \<and> J outdata buffer \<and> (\<forall>t\<in>set (triples L0 B H). Q t)"
  proof (rule forM_project [where I = J and Q = Q and F = F and ai = PlainTensor_empty and af = buffer])
    show "forM (triples L0 B H) F (m_ptr outp, PlainTensor_empty) = Inr (outdata, buffer)"
      by (rule fm)
    show "J (m_ptr outp) PlainTensor_empty" by (simp add: J_def PlainTensor_empty_def)
  next
    fix t x a y a'
    assume t: "t \<in> set (triples L0 B H)" and j: "J x a" and f: "F t (x, a) = Inr (y, a')"
    obtain m1 b1 h1 where t1: "t = (m1, b1, h1)" by (cases t) auto
    from f have f': "(case beam_table_at beam_table b1 m1 of
             Inl e \<Rightarrow> Inl e
           | Inr b_kv \<Rightarrow>
               let buffer1 = PlainTensor_resize k a [S] element_f32
               in if gs = 0 then Inl DivisionByZero
                  else
                    (case forM [0..<S div gs]
                            (\<lambda>group_id floats.
                               attn_dequant_u8 k (m_ptr pastkv)
                                 (ptr_off pastkv [m1, b_kv, h1, group_id * gs])
                                 floats (group_id * gs) gs (m_ptr scale_zp)
                                 (ptr_off scale_zp [m1, b_kv, h1, group_id * 2]))
                            (m_ptr buffer1) of
                       Inl e \<Rightarrow> Inl e
                     | Inr floats \<Rightarrow>
                         (case cpu_convert k floats 0 x (ptr_off outp [m1, b1, h1])
                                 element_f32 (m_dt outp) S of
                            Inl e \<Rightarrow> Inl e
                          | Inr out' \<Rightarrow> Inr (out', buffer1\<lparr>m_ptr := floats\<rparr>))))
            = Inr (y, a')"
      unfolding F_def t1 by (simp only: prod.case)
    from j have j': "m_ptr a = [] \<or> (length (m_ptr a) = S
              \<and> drop ((S div gs) * gs) (m_ptr a) = replicate (S mod gs) (uninit k))"
      by (simp add: J_def)
    from get_state_by_group_step [OF f' j' pst]
    show "J y a' \<and> Q t \<and> (\<exists>vals. g t = Inr vals \<and> write_block x (pos t) vals = Inr y)"
      by (auto simp: J_def Q_def g_def pos_def t1)
  qed
  then have fm2: "forM (triples L0 B H)
                (\<lambda>t out. case g t of Inl e \<Rightarrow> Inl e | Inr vals \<Rightarrow> write_block out (pos t) vals)
                (m_ptr outp) = Inr outdata"
    and q: "\<forall>t\<in>set (triples L0 B H). Q t" by simp_all
  have glen: "length v = S" if "t \<in> set (triples L0 B H)" "g t = Inr v" for t v
    using q that by (auto simp: Q_def)
  have disj: "pos x + i \<noteq> pos y + j"
    if "x \<in> set (triples L0 B H)" "y \<in> set (triples L0 B H)" "x \<noteq> y"
       "g x = Inr va" "g y = Inr vb" "i < length va" "j < length vb" for x y va vb i j
  proof
    assume e: "pos x + i = pos y + j"
    obtain m1 b1 h1 where x: "x = (m1, b1, h1)" by (cases x) auto
    obtain m2 b2 h2 where y: "y = (m2, b2, h2)" by (cases y) auto
    from that(6) glen [OF that(1,4)] have iS: "i < S" by simp
    from that(7) glen [OF that(2,5)] have jS: "j < S" by simp
    from that(1,2) x y iS jS
    have "m1 < L0" "b1 < B" "h1 < H" "i < S" "m2 < L0" "b2 < B" "h2 < H" "j < S"
      by (simp_all add: set_triples)
    from output_rows_disjoint [OF oe oi len st dims one this] e x y that(3)
    show False by (simp add: pos_def)
  qed
  have mem: "(m, b, h) \<in> set (triples L0 B H)" using mbh by (simp add: set_triples)
  have "\<exists>vals. g (m, b, h) = Inr vals \<and> pos (m, b, h) + length vals \<le> length outdata
               \<and> take (length vals) (drop (pos (m, b, h)) outdata) = vals"
    by (rule forM_write_rows_nth [OF fm2 distinct_triples mem]) (rule disj; assumption)
  then obtain vals where gv: "g (m, b, h) = Inr vals"
    and fit: "pos (m, b, h) + length vals \<le> length outdata"
    and tk: "take (length vals) (drop (pos (m, b, h)) outdata) = vals"
    by blast
  from glen [OF mem gv] fit tk have rd: "read_block outdata (ptr_off outp [m, b, h]) S = Inr vals"
    by (simp add: read_block_def pos_def)
  from gv obtain b_kv where bk: "beam_table_at beam_table b m = Inr b_kv"
    and vals: "vals = map (convert_elem k element_f32 (m_dt outp))
                 (dequant_row_by_group k gs S (m_ptr scale_zp)
                    (\<lambda>group_id. ptr_off scale_zp [m, b_kv, h, group_id * 2])
                    (drop (ptr_off pastkv [m, b_kv, h]) (m_ptr pastkv))
                  @ replicate (S mod gs) (uninit k))"
    by (auto simp: g_def split: sum.splits)
  from bk rd vals show ?thesis by blast
qed

lemma dequant_row_of_stored_row:
  assumes "read_block src sbase S = Inr qs"
  shows "dequant_row_by_group k gs S params po (drop sbase src)
       = dequant_row_by_group k gs S params po qs"
proof -
  from read_block_Inr [OF assms] have qs: "qs = take S (drop sbase src)" by blast
  have "take gs (drop (gid * gs) (drop sbase src)) = take gs (drop (gid * gs) qs)"
    if "gid < S div gs" for gid
  proof -
    from group_fits [OF that] have "gs \<le> S - gid * gs" by simp
    then show ?thesis by (simp add: qs drop_take min_absorb1)
  qed
  then show ?thesis
    unfolding dequant_row_by_group_def by (intro arg_cong [where f = concat] map_cong) simp_all
qed

lemma get_state_by_group_out_row:
  assumes run: "get_state_KVcache k s = Inr out"
    and mem: "m_internal_mem s = Some mem" and hid: "m_hidden_state s = Some hid"
    and flag: "\<not> is_reset_state s"
    and prc: "getPrecision (getDesc mem) = element_u8"
    and mode: "\<not> m_quant_by_channel s"
    and oi: "is_perm 4 (getOrder (getDesc mem))"
    and oe: "is_perm 4 (getOrder (m_external_desc s))"
    and dims: "blockedDims (getDims (getDesc mem)) (getOrder (getDesc mem)) = [L0, B, H, S]"
    and mbh: "m < L0" "b < B" "h < H"
  shows "\<exists>b_kv. beam_entry hid b m = Inr b_kv
           \<and> (\<forall>qs. tensor_row mem (getOrder (getDesc mem)) m b_kv h = Inr qs \<longrightarrow>
                 tensor_row out (getOrder (getDesc mem)) m b h
                   = Inr (map (convert_elem k element_f32 (getPrecision (m_external_desc s)))
                            (dequant_row_by_group k (m_group_size s) S (m_ptr (m_scale_zp s))
                               (\<lambda>group_id. ptr_off (m_scale_zp s) [m, b_kv, h, group_id * 2]) qs
                             @ replicate (S mod m_group_size s) (uninit k))))"
proof -
  let ?oi = "getOrder (getDesc mem)" and ?oe = "getOrder (m_external_desc s)"
  from run mem hid flag have "get_state_reorder k s mem hid = Inr out"
    by (simp add: get_state_KVcache_def)
  from get_state_reorder_InrD [OF this] obtain ds ed output0 beam_table pastkv0 outv pastkv outdata
    where ds: "getStaticDims (getDesc mem) = Inr ds"
      and ed: "cloneWithNewDims (m_external_desc s) ds False = Inr ed"
      and l4: "length ds = 4"
      and o0: "PlainTensor_reset (Memory_new (uninit k) ed) = Inr output0"
      and bt: "PlainTensor_reset hid = Inr beam_table"
      and p0: "PlainTensor_reset mem = Inr pastkv0"
      and po: "permute output0 ?oi = Inr outv"
      and pp: "permute pastkv0 ?oi = Inr pastkv"
      and pone: "m_strides pastkv ! 3 = 1"
      and one: "m_strides outv ! 3 = 1"
      and loop: "(if m_dt pastkv = element_u8
         then (if m_quant_by_channel s
               then get_state_by_channel k (m_group_size s) (m_scale_zp s) pastkv beam_table outv
                      (m_dims pastkv ! 0) (m_dims pastkv ! 1) (m_dims pastkv ! 2) (m_dims pastkv ! 3)
               else get_state_by_group k (m_group_size s) (m_scale_zp s) pastkv beam_table outv
                      (m_dims pastkv ! 0) (m_dims pastkv ! 1) (m_dims pastkv ! 2) (m_dims pastkv ! 3))
         else get_state_plain k pastkv beam_table outv
                (m_dims pastkv ! 0) (m_dims pastkv ! 1) (m_dims pastkv ! 2) (m_dims pastkv ! 3))
        = Inr outdata"
      and out: "out = (Memory_new (uninit k) ed)\<lparr>getData := outdata\<rparr>"
    by blast
  from getStaticDims_Inr [OF ds] have dsd: "ds = getDims (getDesc mem)" by simp
  note edf = cloneWithNewDims_Inr [OF ed]
  note o0f = PlainTensor_reset_Inr [OF o0]
  note p0f = PlainTensor_reset_Inr [OF p0]
  note pof = permute_Inr [OF po]
  note ppf = permute_Inr [OF pp]
  have pdims: "m_dims pastkv = [L0, B, H, S]"
    using ppf p0f dims by (simp add: blockedDims_def)
  have pdt: "m_dt pastkv = element_u8" using ppf p0f prc by simp
  have pl4: "length (m_strides pastkv) = 4"
    using ppf is_perm_length [OF oi] by simp
  have odt: "m_dt outv = getPrecision (m_external_desc s)"
    using pof o0f edf by (simp add: Memory_new_def)
  have ost: "m_strides outv
      = map (\<lambda>j. logical_strides ?oe (dense_strides (blockedDims ds ?oe)) ! j) ?oi"
    using pof o0f edf by (simp add: Memory_new_def)
  have odims: "m_dims outv = [L0, B, H, S]"
    using pof o0f edf dims dsd by (simp add: Memory_new_def blockedDims_def)
  have dm: "map (\<lambda>j. ds ! j) ?oi = [L0, B, H, S]"
    using dims dsd by (simp add: blockedDims_def)
  from loop mode pdt pdims
  have grp: "get_state_by_group k (m_group_size s) (m_scale_zp s) pastkv beam_table outv L0 B H S
               = Inr outdata"
    by simp
  from get_state_by_group_row [OF grp oe oi l4 ost dm one pl4 pone mbh]
  obtain b_kv where bk: "beam_table_at beam_table b m = Inr b_kv"
    and wr: "read_block outdata (ptr_off outv [m, b, h]) S
               = Inr (map (convert_elem k element_f32 (m_dt outv))
                        (dequant_row_by_group k (m_group_size s) S (m_ptr (m_scale_zp s))
                           (\<lambda>group_id. ptr_off (m_scale_zp s) [m, b_kv, h, group_id * 2])
                           (drop (ptr_off pastkv [m, b_kv, h]) (m_ptr pastkv))
                         @ replicate (S mod m_group_size s) (uninit k)))"
    by blast
  have r1: "beam_entry hid b m = Inr b_kv"
    using bt bk by (simp add: beam_entry_def)
  have ro: "PlainTensor_reset out = Inr (output0\<lparr>m_ptr := outdata\<rparr>)"
    unfolding out using o0 by (rule PlainTensor_reset_data)
  have rp: "permute (output0\<lparr>m_ptr := outdata\<rparr>) ?oi = Inr (outv\<lparr>m_ptr := outdata\<rparr>)"
    using po by (rule permute_data)
  have r2: "tensor_row out ?oi m b h
                   = Inr (map (convert_elem k element_f32 (getPrecision (m_external_desc s)))
                            (dequant_row_by_group k (m_group_size s) S (m_ptr (m_scale_zp s))
                               (\<lambda>group_id. ptr_off (m_scale_zp s) [m, b_kv, h, group_id * 2]) qs
                             @ replicate (S mod m_group_size s) (uninit k)))"
    if qs: "tensor_row mem ?oi m b_kv h = Inr qs" for qs
  proof -
    from qs p0 pp pdims have "read_block (m_ptr pastkv) (ptr_off pastkv [m, b_kv, h]) S = Inr qs"
      by (simp add: tensor_row_def)
    from dequant_row_of_stored_row [OF this] wr ro rp odims odt show ?thesis
      by (simp add: tensor_row_def)
  qed
  from r1 r2 show ?thesis by blast
qed

text \<open>
  Claim C9. In the by-group mode (u8 storage, quantise-by-channel off) set_state quantises
  and get_state dequantises \<open>S div group_size\<close> whole groups per row (step, batch, head); the
  trailing \<open>S mod group_size\<close> elements of a row are never quantised, written or
  dequantised. After set_state the stored row is the quantised groups followed by
  \<open>S mod group_size\<close> elements of the fresh buffer that were never written; the row
  get_state returns is the dequantised groups followed by \<open>S mod group_size\<close> converted
  elements of the fresh scratch buffer, whatever the stored row holds there. So the two
  are the codec of the whole row only where \<open>group_size\<close> divides \<open>S\<close>.
\<close>

theorem C9_by_group_whole_groups_only:
  "(set_state_impl_KVcache k state s1 = Inr s1'
      \<and> getPrecision (m_dense_internal_desc s1) = element_u8 \<and> \<not> m_quant_by_channel s1
      \<and> is_perm 4 (getOrder (m_dense_internal_desc s1))
      \<and> blockedDims (getDims (getDesc state)) (getOrder (m_dense_internal_desc s1)) = [L0, B, H, S]
      \<and> m < L0 \<and> b < B \<and> h < H
    \<longrightarrow> (\<exists>mem xs. m_internal_mem s1' = Some mem
           \<and> external_row state (getOrder (m_dense_internal_desc s1)) m b h = Inr xs
           \<and> length (quant_row_by_group k (m_group_size s1)
                        (map (convert_elem k (getPrecision (getDesc state)) element_f32) xs))
               = (S div m_group_size s1) * m_group_size s1
           \<and> tensor_row mem (getOrder (m_dense_internal_desc s1)) m b h
               = Inr (quant_row_by_group k (m_group_size s1)
                        (map (convert_elem k (getPrecision (getDesc state)) element_f32) xs)
                      @ replicate (S mod m_group_size s1) (uninit k))))
   \<and> (get_state_KVcache k s2 = Inr out
      \<and> m_internal_mem s2 = Some mem2 \<and> m_hidden_state s2 = Some hid \<and> \<not> is_reset_state s2
      \<and> getPrecision (getDesc mem2) = element_u8 \<and> \<not> m_quant_by_channel s2
      \<and> is_perm 4 (getOrder (getDesc mem2)) \<and> is_perm 4 (getOrder (m_external_desc s2))
      \<and> blockedDims (getDims (getDesc mem2)) (getOrder (getDesc mem2)) = [L0, B, H, S]
      \<and> m < L0 \<and> b < B \<and> h < H
    \<longrightarrow> (\<exists>b_kv. beam_entry hid b m = Inr b_kv
           \<and> (\<forall>qs. tensor_row mem2 (getOrder (getDesc mem2)) m b_kv h = Inr qs \<longrightarrow>
                 tensor_row out (getOrder (getDesc mem2)) m b h
                   = Inr (map (convert_elem k element_f32 (getPrecision (m_external_desc s2)))
                            (dequant_row_by_group k (m_group_size s2) S (m_ptr (m_scale_zp s2))
                               (\<lambda>group_id. ptr_off (m_scale_zp s2) [m, b_kv, h, group_id * 2]) qs
                             @ replicate (S mod m_group_size s2) (uninit k))))))"
proof (intro conjI impI)
  assume a: "set_state_impl_KVcache k state s1 = Inr s1'
      \<and> getPrecision (m_dense_internal_desc s1) = element_u8 \<and> \<not> m_quant_by_channel s1
      \<and> is_perm 4 (getOrder (m_dense_internal_desc s1))
      \<and> blockedDims (getDims (getDesc state)) (getOrder (m_dense_internal_desc s1)) = [L0, B, H, S]
      \<and> m < L0 \<and> b < B \<and> h < H"
  then have f: "set_state_impl_KVcache k state s1 = Inr s1'"
    "getPrecision (m_dense_internal_desc s1) = element_u8" "\<not> m_quant_by_channel s1"
    "is_perm 4 (getOrder (m_dense_internal_desc s1))"
    "blockedDims (getDims (getDesc state)) (getOrder (m_dense_internal_desc s1)) = [L0, B, H, S]"
    "m < L0" "b < B" "h < H"
    by simp_all
  from set_state_by_group_stored_row [OF f] obtain mem xs where r: "m_internal_mem s1' = Some mem"
    "external_row state (getOrder (m_dense_internal_desc s1)) m b h = Inr xs"
    "tensor_row mem (getOrder (m_dense_internal_desc s1)) m b h
               = Inr (quant_row_by_group k (m_group_size s1)
                        (map (convert_elem k (getPrecision (getDesc state)) element_f32) xs)
                      @ replicate (S mod m_group_size s1) (uninit k))"
    by blast
  from a have "map (\<lambda>i. getDims (getDesc state) ! i) (getOrder (m_dense_internal_desc s1)) ! 3 = S"
    by (simp add: blockedDims_def)
  with r(2) have "length xs = S"
    by (auto simp: external_row_def split: sum.splits
             dest!: read_block_Inr permute_Inr getStaticDims_Inr)
  then have "length (quant_row_by_group k (m_group_size s1)
                        (map (convert_elem k (getPrecision (getDesc state)) element_f32) xs))
               = (S div m_group_size s1) * m_group_size s1"
    by (simp add: length_quant_row_by_group)
  with r show "\<exists>mem xs. m_internal_mem s1' = Some mem
           \<and> external_row state (getOrder (m_dense_internal_desc s1)) m b h = Inr xs
           \<and> length (quant_row_by_group k (m_group_size s1)
                        (map (convert_elem k (getPrecision (getDesc state)) element_f32) xs))
               = (S div m_group_size s1) * m_group_size s1
           \<and> tensor_row mem (getOrder (m_dense_internal_desc s1)) m b h
               = Inr (quant_row_by_group k (m_group_size s1)
                        (map (convert_elem k (getPrecision (getDesc state)) element_f32) xs)
                      @ replicate (S mod m_group_size s1) (uninit k))"
    by blast
next
  assume "get_state_KVcache k s2 = Inr out
      \<and> m_internal_mem s2 = Some mem2 \<and> m_hidden_state s2 = Some hid \<and> \<not> is_reset_state s2
      \<and> getPrecision (getDesc mem2) = element_u8 \<and> \<not> m_quant_by_channel s2
      \<and> is_perm 4 (getOrder (getDesc mem2)) \<and> is_perm 4 (getOrder (m_external_desc s2))
      \<and> blockedDims (getDims (getDesc mem2)) (getOrder (getDesc mem2)) = [L0, B, H, S]
      \<and> m < L0 \<and> b < B \<and> h < H"
  then have f: "get_state_KVcache k s2 = Inr out"
    "m_internal_mem s2 = Some mem2" "m_hidden_state s2 = Some hid" "\<not> is_reset_state s2"
    "getPrecision (getDesc mem2) = element_u8" "\<not> m_quant_by_channel s2"
    "is_perm 4 (getOrder (getDesc mem2))" "is_perm 4 (getOrder (m_external_desc s2))"
    "blockedDims (getDims (getDesc mem2)) (getOrder (getDesc mem2)) = [L0, B, H, S]"
    "m < L0" "b < B" "h < H"
    by simp_all
  show "\<exists>b_kv. beam_entry hid b m = Inr b_kv
           \<and> (\<forall>qs. tensor_row mem2 (getOrder (getDesc mem2)) m b_kv h = Inr qs \<longrightarrow>
                 tensor_row out (getOrder (getDesc mem2)) m b h
                   = Inr (map (convert_elem k element_f32 (getPrecision (m_external_desc s2)))
                            (dequant_row_by_group k (m_group_size s2) S (m_ptr (m_scale_zp s2))
                               (\<lambda>group_id. ptr_off (m_scale_zp s2) [m, b_kv, h, group_id * 2]) qs
                             @ replicate (S mod m_group_size s2) (uninit k))))"
    by (rule get_state_by_group_out_row [OF f])
qed

theorem C9_witness:
  "set_state_impl_KVcache example_kernels example_group_state example_group_kv
     = Inr (example_group_kv_set\<lparr>reset_state_flag := True\<rparr>)
   \<and> external_row example_group_state [2, 0, 1, 3] 0 0 0 = Inr [10, 20, 30]
   \<and> m_internal_mem (example_group_kv_set\<lparr>reset_state_flag := True\<rparr>) = Some example_group_stored
   \<and> tensor_row example_group_stored [2, 0, 1, 3] 0 0 0 = Inr [0, 10, - 1]
   \<and> (\<exists>out. get_state_KVcache example_kernels example_group_kv_set = Inr out
          \<and> tensor_row out [2, 0, 1, 3] 0 0 0 = Inr [10, 20, - 1])"
proof -
  let ?s1 = "example_group_kv_set\<lparr>reset_state_flag := True\<rparr>"
  have run: "set_state_impl_KVcache example_kernels example_group_state example_group_kv = Inr ?s1"
    by code_simp
  have prc: "getPrecision (m_dense_internal_desc example_group_kv) = element_u8"
    and mode: "\<not> m_quant_by_channel example_group_kv"
    and ord: "getOrder (m_dense_internal_desc example_group_kv) = [2, 0, 1, 3]"
    and gs: "m_group_size example_group_kv = 2"
    by (simp_all add: example_group_kv_def)
  have perm: "is_perm 4 (getOrder (m_dense_internal_desc example_group_kv))" by code_simp
  have dims: "blockedDims (getDims (getDesc example_group_state))
                (getOrder (m_dense_internal_desc example_group_kv)) = [1, 1, 1, 3]"
    by code_simp
  have ex: "external_row example_group_state [2, 0, 1, 3] 0 0 0 = Inr [10, 20, 30]" by code_simp
  have st: "m_internal_mem ?s1 = Some example_group_stored" by code_simp
  have "\<not> isl (get_state_KVcache example_kernels example_group_kv_set)" by code_simp
  then obtain out where get: "get_state_KVcache example_kernels example_group_kv_set = Inr out"
    by (cases "get_state_KVcache example_kernels example_group_kv_set") auto
  have mem2: "m_internal_mem example_group_kv_set = Some example_group_stored" by code_simp
  have hid: "m_hidden_state example_group_kv_set
               = Some \<lparr>getDesc = CpuBlockedMemoryDesc element_i32 [1, 1], getData = [0]\<rparr>"
    by code_simp
  have flag: "\<not> is_reset_state example_group_kv_set" by code_simp
  have mode2: "\<not> m_quant_by_channel example_group_kv_set"
    and gs2: "m_group_size example_group_kv_set = 2"
    and ext2: "getPrecision (m_external_desc example_group_kv_set) = element_f32"
    by code_simp+
  have prc2: "getPrecision (getDesc example_group_stored) = element_u8"
    and ord2: "getOrder (getDesc example_group_stored) = [2, 0, 1, 3]"
    by (simp_all add: example_group_stored_def)
  have perm2: "is_perm 4 (getOrder (getDesc example_group_stored))"
    and perme: "is_perm 4 (getOrder (m_external_desc example_group_kv_set))"
    by code_simp+
  have dims2: "blockedDims (getDims (getDesc example_group_stored))
                 (getOrder (getDesc example_group_stored)) = [1, 1, 1, 3]"
    by code_simp
  have be: "beam_entry \<lparr>getDesc = CpuBlockedMemoryDesc element_i32 [1, 1], getData = [0]\<rparr> 0 0 = Inr 0"
    by code_simp
  note c9 = C9_by_group_whole_groups_only [of example_kernels example_group_state example_group_kv
      ?s1 1 1 1 3 0 0 0 example_group_kv_set out example_group_stored
      "\<lparr>getDesc = CpuBlockedMemoryDesc element_i32 [1, 1], getData = [0]\<rparr>"]
  have qr: "quant_row_by_group example_kernels 2
              (map (convert_elem example_kernels (getPrecision (getDesc example_group_state)) element_f32)
                 [10, 20, 30])
            @ replicate (3 mod 2) (uninit example_kernels) = [0, 10, - 1]"
    by code_simp
  from c9 run prc mode perm dims
  obtain mem xs where m1: "m_internal_mem ?s1 = Some mem"
    and x1: "external_row example_group_state (getOrder (m_dense_internal_desc example_group_kv)) 0 0 0 = Inr xs"
    and t1: "tensor_row mem (getOrder (m_dense_internal_desc example_group_kv)) 0 0 0
          = Inr (quant_row_by_group example_kernels (m_group_size example_group_kv)
                   (map (convert_elem example_kernels (getPrecision (getDesc example_group_state))
                           element_f32) xs)
                 @ replicate (3 mod m_group_size example_group_kv) (uninit example_kernels))"
    by auto
  from m1 st have meq: "mem = example_group_stored" by simp
  from x1 ex have xeq: "xs = [10, 20, 30]" by (simp add: ord)
  from t1 have row: "tensor_row example_group_stored [2, 0, 1, 3] 0 0 0 = Inr [0, 10, - 1]"
    unfolding meq xeq ord gs qr .
  have deq: "map (convert_elem example_kernels element_f32 element_f32)
               (dequant_row_by_group example_kernels 2 3 (m_ptr (m_scale_zp example_group_kv_set))
                  (\<lambda>group_id. ptr_off (m_scale_zp example_group_kv_set) [0, 0, 0, group_id * 2])
                  [0, 10, - 1]
                @ replicate (3 mod 2) (uninit example_kernels)) = [10, 20, - 1]"
    by code_simp
  from c9 get mem2 hid flag prc2 mode2 perm2 perme dims2
  obtain b_kv where bk: "beam_entry \<lparr>getDesc = CpuBlockedMemoryDesc element_i32 [1, 1], getData = [0]\<rparr> 0 0
                           = Inr b_kv"
    and rows: "\<forall>qs. tensor_row example_group_stored (getOrder (getDesc example_group_stored)) 0 b_kv 0 = Inr qs
        \<longrightarrow> tensor_row out (getOrder (getDesc example_group_stored)) 0 0 0
            = Inr (map (convert_elem example_kernels element_f32
                          (getPrecision (m_external_desc example_group_kv_set)))
                     (dequant_row_by_group example_kernels (m_group_size example_group_kv_set) 3
                        (m_ptr (m_scale_zp example_group_kv_set))
                        (\<lambda>group_id. ptr_off (m_scale_zp example_group_kv_set) [0, b_kv, 0, group_id * 2]) qs
                      @ replicate (3 mod m_group_size example_group_kv_set) (uninit example_kernels)))"
    by auto
  from bk be have b0: "b_kv = 0" by simp
  from rows row have "tensor_row out [2, 0, 1, 3] 0 0 0 = Inr [10, 20, - 1]"
    unfolding b0 ord2 gs2 ext2 using deq by simp
  with run ex st row get show ?thesis by blast
qed


end
